theory Spec2Isabelle
  imports Main
begin

section \<open>Go standard-library functions used by the pipeline\<close>

text \<open>
  Go strings are byte sequences; \<^typ>\<open>string\<close> is a list of 8-bit characters, so the
  functions below work on the same bytes as \<^verbatim>\<open>strings.*\<close> and \<^verbatim>\<open>path/filepath\<close> do.
\<close>

definition newline :: char where
  "newline = CHR 0x0A"

text \<open>\<^verbatim>\<open>strings.HasPrefix(s, prefix)\<close>: \<^verbatim>\<open>len(s) >= len(prefix) && s[:len(prefix)] == prefix\<close>.\<close>

definition HasPrefix :: "string \<Rightarrow> string \<Rightarrow> bool" where
  "HasPrefix s p \<longleftrightarrow> length p \<le> length s \<and> take (length p) s = p"

text \<open>\<^verbatim>\<open>strings.TrimPrefix(s, prefix)\<close>.\<close>

definition TrimPrefix :: "string \<Rightarrow> string \<Rightarrow> string" where
  "TrimPrefix s p = (if HasPrefix s p then drop (length p) s else s)"

text \<open>\<^verbatim>\<open>strings.Contains(s, substr)\<close>: some suffix of \<open>s\<close> starts with \<open>substr\<close>.\<close>

fun Contains :: "string \<Rightarrow> string \<Rightarrow> bool" where
  "Contains [] sub = HasPrefix [] sub"
| "Contains (c # s) sub = (HasPrefix (c # s) sub \<or> Contains s sub)"

text \<open>
  \<^verbatim>\<open>strings.Split(s, sep)\<close> for a one-byte separator: the pieces between the separators,
  always at least one piece (\<^verbatim>\<open>Split("", "\n") = [""]\<close>, \<^verbatim>\<open>Split("a\n", "\n") = ["a", ""]\<close>).
\<close>

fun Split :: "string \<Rightarrow> char \<Rightarrow> string list" where
  "Split [] sep = [[]]"
| "Split (c # s) sep =
     (if c = sep then [] # Split s sep
      else (c # hd (Split s sep)) # tl (Split s sep))"

text \<open>\<^verbatim>\<open>strings.Join(elems, sep)\<close> for a one-byte separator.\<close>

fun Join :: "string list \<Rightarrow> char \<Rightarrow> string" where
  "Join [] sep = []"
| "Join [e] sep = e"
| "Join (e # es) sep = e @ sep # Join es sep"

text \<open>
  \<^verbatim>\<open>filepath.Ext(path)\<close> (Unix build, separator \<^verbatim>\<open>/\<close>): scanning from the end and stopping at a
  separator, the suffix that starts at the first dot met; empty when there is none.
\<close>

definition IsPathSeparator :: "char \<Rightarrow> bool" where
  "IsPathSeparator c \<longleftrightarrow> c = CHR ''/''"

fun Ext_scan :: "string \<Rightarrow> string \<Rightarrow> string" where
  "Ext_scan [] ext = []"
| "Ext_scan (c # rest) ext =
     (if IsPathSeparator c then []
      else if c = CHR ''.'' then c # ext
      else Ext_scan rest (c # ext))"

definition Ext :: "string \<Rightarrow> string" where
  "Ext path = Ext_scan (rev path) []"

text \<open>
  \<^verbatim>\<open>filepath.Base(path)\<close> (Unix build): the last element of the path, trailing separators
  removed first; \<^verbatim>\<open>"."\<close> for the empty path and \<^verbatim>\<open>"/"\<close> for a path of separators only.
\<close>

definition Base :: "string \<Rightarrow> string" where
  "Base path =
     (if path = [] then ''.''
      else let stripped = rev (dropWhile IsPathSeparator (rev path));
               elem = rev (takeWhile (\<lambda>c. \<not> IsPathSeparator c) (rev stripped))
           in if elem = [] then ''/'' else elem)"

text \<open>
  \<^verbatim>\<open>unicode.IsSpace\<close>: the code points U+0009..U+000D, U+0020, U+0085, U+00A0, U+1680,
  U+2000..U+200A, U+2028, U+2029, U+202F, U+205F and U+3000, here as their UTF-8 encodings.
\<close>

definition space_runes :: "string list" where
  "space_runes =
     [[CHR 0x09], [CHR 0x0A], [CHR 0x0B], [CHR 0x0C], [CHR 0x0D], [CHR 0x20],
      [CHR 0xC2, CHR 0x85], [CHR 0xC2, CHR 0xA0],
      [CHR 0xE1, CHR 0x9A, CHR 0x80],
      [CHR 0xE2, CHR 0x80, CHR 0x80], [CHR 0xE2, CHR 0x80, CHR 0x81],
      [CHR 0xE2, CHR 0x80, CHR 0x82], [CHR 0xE2, CHR 0x80, CHR 0x83],
      [CHR 0xE2, CHR 0x80, CHR 0x84], [CHR 0xE2, CHR 0x80, CHR 0x85],
      [CHR 0xE2, CHR 0x80, CHR 0x86], [CHR 0xE2, CHR 0x80, CHR 0x87],
      [CHR 0xE2, CHR 0x80, CHR 0x88], [CHR 0xE2, CHR 0x80, CHR 0x89],
      [CHR 0xE2, CHR 0x80, CHR 0x8A],
      [CHR 0xE2, CHR 0x80, CHR 0xA8], [CHR 0xE2, CHR 0x80, CHR 0xA9],
      [CHR 0xE2, CHR 0x80, CHR 0xAF],
      [CHR 0xE2, CHR 0x81, CHR 0x9F],
      [CHR 0xE3, CHR 0x80, CHR 0x80]]"

text \<open>The width in bytes of the rune of \<open>runes\<close> that \<open>s\<close> starts with, 0 when there is none.\<close>

fun leading_rune :: "string list \<Rightarrow> string \<Rightarrow> nat" where
  "leading_rune [] s = 0"
| "leading_rune (r # runes) s = (if HasPrefix s r then length r else leading_rune runes s)"

function trim_front :: "string list \<Rightarrow> string \<Rightarrow> string" where
  "trim_front runes s =
     (if 0 < leading_rune runes s then trim_front runes (drop (leading_rune runes s) s) else s)"
  by pat_completeness auto
termination
proof (relation "measure (\<lambda>(runes, s). length s)")
  show "wf (measure (\<lambda>(runes, s). length s))" by simp
next
  fix runes s
  assume pos: "0 < leading_rune runes s"
  have "leading_rune runes s \<le> length s"
    by (induction runes) (auto simp: HasPrefix_def)
  with pos show "((runes, drop (leading_rune runes s) s), (runes, s)) \<in> measure (\<lambda>(runes, s). length s)"
    by simp
qed

declare trim_front.simps [simp del]

text \<open>
  \<^verbatim>\<open>strings.TrimSpace(s)\<close>: the white-space runes at the front are removed, then those at the
  end of what is left (a trailing rune is recognised by its bytes read backwards).
\<close>

definition TrimSpace :: "string \<Rightarrow> string" where
  "TrimSpace s = rev (trim_front (map rev space_runes) (rev (trim_front space_runes s)))"

text \<open>The table \<^verbatim>\<open>asciiSpace\<close> of package \<^verbatim>\<open>strings\<close>: the six one-byte white-space characters.\<close>

definition asciiSpace :: "char \<Rightarrow> bool" where
  "asciiSpace c \<longleftrightarrow> c \<in> {CHR 0x09, CHR 0x0A, CHR 0x0B, CHR 0x0C, CHR 0x0D, CHR 0x20}"

text \<open>
  \<^verbatim>\<open>strings.LastIndex(s, substr)\<close>: the greatest index at which \<open>substr\<close> occurs in \<open>s\<close>,
  \<open>-1\<close> when it does not occur.
\<close>

fun LastIndex_from :: "nat \<Rightarrow> string \<Rightarrow> string \<Rightarrow> int" where
  "LastIndex_from 0 s substr = (if HasPrefix s substr then 0 else - 1)"
| "LastIndex_from (Suc i) s substr =
     (if HasPrefix (drop (Suc i) s) substr then int (Suc i) else LastIndex_from i s substr)"

definition LastIndex :: "string \<Rightarrow> string \<Rightarrow> int" where
  "LastIndex s substr =
     (if length s < length substr then - 1
      else LastIndex_from (length s - length substr) s substr)"

text \<open>
  \<^verbatim>\<open>strings.SplitN(s, sep, n)\<close> for a one-byte separator and \<open>n \<ge> 0\<close>: at most \<open>n\<close> pieces,
  the last one being the unsplit rest.
\<close>

fun SplitN :: "string \<Rightarrow> char \<Rightarrow> nat \<Rightarrow> string list" where
  "SplitN s sep 0 = []"
| "SplitN s sep (Suc 0) = [s]"
| "SplitN s sep (Suc (Suc n)) =
     (if sep \<in> set s
      then takeWhile (\<lambda>c. c \<noteq> sep) s # SplitN (tl (dropWhile (\<lambda>c. c \<noteq> sep) s)) sep (Suc n)
      else [s])"

text \<open>The verb \<^verbatim>\<open>%d\<close> of \<^verbatim>\<open>fmt\<close> on a non-negative integer.\<close>

definition digit :: "nat \<Rightarrow> char" where
  "digit n = ''0123456789'' ! (n mod 10)"

function decimal :: "nat \<Rightarrow> string" where
  "decimal n = (if n < 10 then [digit n] else decimal (n div 10) @ [digit (n mod 10)])"
  by pat_completeness auto
termination
  by (relation "measure (\<lambda>n. n)") auto

declare decimal.simps [simp del]

section \<open>Errors\<close>

text \<open>
  An \<^verbatim>\<open>error\<close> value is either a message produced outside the program (a failed
  subprocess, a network failure, a decoding error) or an error wrapped by
  \<^verbatim>\<open>fmt.Errorf("...%w...", err)\<close> with the text put around it.
\<close>

datatype error = Err string | Wrap string error string

fun Error :: "error \<Rightarrow> string" where
  "Error (Err msg) = msg"
| "Error (Wrap pre err post) = pre @ Error err @ post"

section \<open>Line scanner (package bufio)\<close>

text \<open>
  \<^verbatim>\<open>bufio.Scanner\<close> with the split function \<^verbatim>\<open>ScanLines\<close> over a byte slice: one token per
  line, the line break and one carriage return before it removed; text after the last line
  break is a last token when it is not empty. The scanner's buffer holds at most
  \<^verbatim>\<open>MaxScanTokenSize\<close> bytes: at a line of that many bytes or more it stops, and \<^verbatim>\<open>Err()\<close> is
  \<^verbatim>\<open>ErrTooLong\<close>.
\<close>

definition MaxScanTokenSize :: nat where
  "MaxScanTokenSize = 64 * 1024"

definition ErrTooLong :: error where
  "ErrTooLong = Err ''bufio.Scanner: token too long''"

definition raw_lines :: "string \<Rightarrow> string list" where
  "raw_lines data = (let pieces = Split data newline in if last pieces = [] then butlast pieces else pieces)"

definition dropCR :: "string \<Rightarrow> string" where
  "dropCR data = (if data \<noteq> [] \<and> last data = CHR 0x0D then butlast data else data)"

fun Scan_tokens :: "string list \<Rightarrow> string list \<times> error option" where
  "Scan_tokens [] = ([], None)"
| "Scan_tokens (l # ls) =
     (if MaxScanTokenSize \<le> length l then ([], Some ErrTooLong)
      else (let (tokens, err) = Scan_tokens ls in (dropCR l # tokens, err)))"

definition Scanner :: "string \<Rightarrow> string list \<times> error option" where
  "Scanner data = Scan_tokens (raw_lines data)"

section \<open>Domain model (package domain)\<close>

record Diff =
  FilePath :: string
  OldPath :: string
  Content :: string
  LineCount :: int
  IsNew :: bool
  IsDeleted :: bool
  IsRenamed :: bool
  CommitHash :: string
  RepoPath :: string
  RepoName :: string
  Language :: string

definition MaxDiffLines :: int where
  "MaxDiffLines = 300"

definition SupportedExtensions :: "string \<rightharpoonup> string" where
  "SupportedExtensions =
     map_of [(''.go'', ''go''), (''.ts'', ''typescript''), (''.dart'', ''dart''), (''.sql'', ''sql'')]"


text \<open>A point in time as \<^verbatim>\<open>time.Time\<close> carries it: the instant and the zone offset.\<close>

datatype Time = Time (unix_nanos: int) (zone_offset: int)

record Commit =
  Hash :: string
  Author :: string
  Email :: string
  Timestamp :: Time
  Message :: string
  Commit_RepoPath :: string
  Commit_RepoName :: string

type_synonym Severity = string

definition SeverityHigh :: Severity where
  "SeverityHigh = ''High''"

definition SeverityMedium :: Severity where
  "SeverityMedium = ''Medium''"

definition SeverityLow :: Severity where
  "SeverityLow = ''Low''"

record Finding =
  Title :: string
  Severity :: Severity
  Finding_RepoName :: string
  Files :: "string list"
  Explanation :: string
  Action :: string

definition IsHighPriority :: "Finding \<Rightarrow> bool" where
  "IsHighPriority f \<longleftrightarrow> Severity f = SeverityHigh"

record Report =
  Date :: Time
  Summary :: string
  Findings :: "Finding list"
  Repositories :: "string list"
  CommitCount :: int
  FileCount :: int
  NothingToNote :: bool
  Model :: string

text \<open>
  The counting loop shared by \<^verbatim>\<open>HighCount\<close>, \<^verbatim>\<open>MediumCount\<close> and \<^verbatim>\<open>LowCount\<close>, which differ in
  the severity compared only.
\<close>

fun count_severity :: "Severity \<Rightarrow> Finding list \<Rightarrow> int \<Rightarrow> int" where
  "count_severity sev [] count = count"
| "count_severity sev (f # fs) count =
     count_severity sev fs (if Severity f = sev then count + 1 else count)"

definition HighCount :: "Report \<Rightarrow> int" where
  "HighCount r = count_severity SeverityHigh (Findings r) 0"

definition MediumCount :: "Report \<Rightarrow> int" where
  "MediumCount r = count_severity SeverityMedium (Findings r) 0"

definition LowCount :: "Report \<Rightarrow> int" where
  "LowCount r = count_severity SeverityLow (Findings r) 0"

definition TotalFindings :: "Report \<Rightarrow> int" where
  "TotalFindings r = int (length (Findings r))"

definition HasFindings :: "Report \<Rightarrow> bool" where
  "HasFindings r \<longleftrightarrow> length (Findings r) > 0"

section \<open>Configuration (package config)\<close>

record EmailConfig =
  Enabled :: bool
  SendAt :: string
  SMTPHost :: string
  SMTPPort :: int
  SMTPUser :: string
  SMTPPassword :: string
  FromAddress :: string
  FromName :: string
  ToAddress :: string

record ReviewConfig =
  Strictness :: string
  Provider :: string
  Review_Model :: string
  APIKey :: string
  BaseURL :: string

record ReportsConfig =
  OutputDir :: string

record Config =
  RootPath :: string
  Config_Email :: EmailConfig
  Config_Review :: ReviewConfig
  Reports :: ReportsConfig
  Verbose :: bool

text \<open>
  \<^verbatim>\<open>Validate\<close>; \<open>rootMissing\<close> is what \<^verbatim>\<open>os.Stat\<close> reports for the root path. The API key that
  \<^verbatim>\<open>Validate\<close> copies from the process environment only authenticates the model provider and
  is left in the environment here.
\<close>

definition Validate :: "bool \<Rightarrow> Config \<Rightarrow> error option" where
  "Validate rootMissing c =
     (if RootPath c = [] then Some (Err ''root_path is required'')
      else if rootMissing then Some (Err (''root_path does not exist: '' @ RootPath c))
      else if Enabled (Config_Email c) \<and> SMTPHost (Config_Email c) = []
        then Some (Err ''smtp_host is required when email is enabled'')
      else if Enabled (Config_Email c) \<and> ToAddress (Config_Email c) = []
        then Some (Err ''to_address is required when email is enabled'')
      else None)"

section \<open>Repository scanner (package scanner)\<close>

definition GetRepoName :: "string \<Rightarrow> string" where
  "GetRepoName repoPath = Base repoPath"

section \<open>Diff extractor (package diff)\<close>

definition excludePaths :: "string list" where
  "excludePaths =
     [''vendor/'', ''node_modules/'', ''.gen.'', ''.generated.'', ''_generated'',
      ''.pb.go'', ''.mock.go'', ''_mock.go'', ''mocks/'', ''testdata/'']"

fun shouldExclude_loop :: "string \<Rightarrow> string list \<Rightarrow> bool" where
  "shouldExclude_loop path [] = False"
| "shouldExclude_loop path (exclude # rest) =
     (if Contains path exclude then True else shouldExclude_loop path rest)"

definition shouldExclude :: "string \<Rightarrow> bool" where
  "shouldExclude path = shouldExclude_loop path excludePaths"

text \<open>
  The two \<^verbatim>\<open>git show\<close> subprocesses of the extractor are the environment: what
  \<^verbatim>\<open>getChangedFiles\<close> and \<^verbatim>\<open>getFileDiff\<close> return for a repository path, a commit hash and
  (for the latter) a file path.
\<close>

record git_show =
  getChangedFiles :: "string \<Rightarrow> string \<Rightarrow> error + string list"
  getFileDiff :: "string \<Rightarrow> string \<Rightarrow> string \<Rightarrow> error + string"

text \<open>Lines 55-61 of \<^verbatim>\<open>Extract\<close>: count the lines and cut the content after 300 of them.\<close>

definition truncation_marker :: string where
  "truncation_marker = newline # ''... [truncated]''"

definition truncate_content :: "string \<Rightarrow> string \<times> int" where
  "truncate_content content =
     (let lines = Split content newline;
          lineCount = int (length lines)
      in if lineCount > MaxDiffLines
         then (Join (take (nat MaxDiffLines) lines) newline @ truncation_marker, lineCount)
         else (content, lineCount))"

definition make_diff :: "Commit \<Rightarrow> string \<Rightarrow> string \<Rightarrow> string \<Rightarrow> Diff" where
  "make_diff commit file lang raw =
     (let (content, lineCount) = truncate_content raw
      in \<lparr>FilePath = file, OldPath = [], Content = content, LineCount = lineCount,
          IsNew = False, IsDeleted = False, IsRenamed = False,
          CommitHash = Hash commit, RepoPath = Commit_RepoPath commit,
          RepoName = GetRepoName (Commit_RepoPath commit), Language = lang\<rparr>)"

text \<open>
  The loop of \<^verbatim>\<open>Extract\<close> over the changed files, with the slice \<^verbatim>\<open>diffs\<close> and the lines
  written to the logger as its state.
\<close>

fun Extract_loop :: "git_show \<Rightarrow> Commit \<Rightarrow> string list \<Rightarrow> Diff list \<times> string list
    \<Rightarrow> Diff list \<times> string list" where
  "Extract_loop g commit [] (diffs, logged) = (diffs, logged)"
| "Extract_loop g commit (file # files) (diffs, logged) =
     (case SupportedExtensions (Ext file) of
        None \<Rightarrow> Extract_loop g commit files (diffs, logged)
      | Some lang \<Rightarrow>
          if shouldExclude file then Extract_loop g commit files (diffs, logged)
          else (case getFileDiff g (Commit_RepoPath commit) (Hash commit) file of
                  Inl err \<Rightarrow>
                    Extract_loop g commit files
                      (diffs, logged @ [''Warning: failed to get diff for '' @ file @ '': '' @ Error err])
                | Inr content \<Rightarrow>
                    Extract_loop g commit files
                      (diffs @ [make_diff commit file lang content], logged)))"

definition Extract :: "git_show \<Rightarrow> Commit \<Rightarrow> (error + Diff list) \<times> string list" where
  "Extract g commit =
     (case getChangedFiles g (Commit_RepoPath commit) (Hash commit) of
        Inl err \<Rightarrow> (Inl err, [])
      | Inr files \<Rightarrow>
          (let (diffs, logged) = Extract_loop g commit files ([], []) in (Inr diffs, logged)))"

section \<open>Commit locator (package git)\<close>

text \<open>
  The loop of \<^verbatim>\<open>parseCommits\<close> over the scanner's tokens, with the slice \<^verbatim>\<open>commits\<close> and the
  lines written to the logger as its state. \<open>parseTime\<close> is \<^verbatim>\<open>time.Parse(time.RFC3339, _)\<close>.
\<close>

fun parseCommits_loop :: "(string \<Rightarrow> error + Time) \<Rightarrow> string \<Rightarrow> string \<Rightarrow> string list
    \<Rightarrow> Commit list \<times> string list \<Rightarrow> Commit list \<times> string list" where
  "parseCommits_loop parseTime repoPath repoName [] (commits, logged) = (commits, logged)"
| "parseCommits_loop parseTime repoPath repoName (line # lines) (commits, logged) =
     (if line = [] then parseCommits_loop parseTime repoPath repoName lines (commits, logged)
      else let parts = SplitN line (CHR ''|'') 5 in
        if length parts < 5 then parseCommits_loop parseTime repoPath repoName lines (commits, logged)
        else (case parseTime (parts ! 3) of
                Inl err \<Rightarrow>
                  parseCommits_loop parseTime repoPath repoName lines
                    (commits,
                     logged @ [''Warning: failed to parse timestamp '' @ parts ! 3 @ '': '' @ Error err])
              | Inr timestamp \<Rightarrow>
                  parseCommits_loop parseTime repoPath repoName lines
                    (commits @
                       [\<lparr>Hash = parts ! 0, Author = parts ! 1, Email = parts ! 2,
                         Timestamp = timestamp, Message = parts ! 4,
                         Commit_RepoPath = repoPath, Commit_RepoName = repoName\<rparr>],
                     logged)))"

text \<open>\<^verbatim>\<open>parseCommits\<close> returns the commits together with the scanner's error.\<close>

definition parseCommits :: "(string \<Rightarrow> error + Time) \<Rightarrow> string \<Rightarrow> string
    \<Rightarrow> (Commit list \<times> error option) \<times> string list" where
  "parseCommits parseTime output repoPath =
     (let repoName = GetRepoName repoPath;
          (tokens, scanErr) = Scanner output;
          (commits, logged) = parseCommits_loop parseTime repoPath repoName tokens ([], [])
      in ((commits, scanErr), logged))"

text \<open>
  The specification's reading of one line of the log, to compare \<^verbatim>\<open>parseCommits\<close> with: a
  record of five fields separated by \<^verbatim>\<open>|\<close> (hash, author name, author email, timestamp,
  subject) gives a commit when its timestamp parses and a warning when it does not; a line
  with fewer fields gives neither.
\<close>

definition commit_of_record :: "(string \<Rightarrow> error + Time) \<Rightarrow> string \<Rightarrow> string \<Rightarrow> string \<Rightarrow> Commit option" where
  "commit_of_record parseTime repoPath repoName line =
     (case SplitN line (CHR ''|'') 5 of
        [hash, author, email, stamp, subject] \<Rightarrow>
          (case parseTime stamp of
             Inl err \<Rightarrow> None
           | Inr timestamp \<Rightarrow>
               Some \<lparr>Hash = hash, Author = author, Email = email, Timestamp = timestamp,
                     Message = subject, Commit_RepoPath = repoPath, Commit_RepoName = repoName\<rparr>)
      | _ \<Rightarrow> None)"

definition warning_of_record :: "(string \<Rightarrow> error + Time) \<Rightarrow> string \<Rightarrow> string option" where
  "warning_of_record parseTime line =
     (case SplitN line (CHR ''|'') 5 of
        [hash, author, email, stamp, subject] \<Rightarrow>
          (case parseTime stamp of
             Inl err \<Rightarrow> Some (''Warning: failed to parse timestamp '' @ stamp @ '': '' @ Error err)
           | Inr timestamp \<Rightarrow> None)
      | _ \<Rightarrow> None)"

text \<open>
  What \<^verbatim>\<open>cmd.Output()\<close> of the \<^verbatim>\<open>git log\<close> subprocess gives: the bytes of standard output, or
  a failure, which is an \<^verbatim>\<open>*exec.ExitError\<close> carrying standard error or some other error.
\<close>

datatype cmd_failure = ExitError string error | OtherError error

definition GetTodaysCommits :: "(string \<Rightarrow> cmd_failure + string) \<Rightarrow> (string \<Rightarrow> error + Time)
    \<Rightarrow> string \<Rightarrow> (Commit list \<times> error option) \<times> string list" where
  "GetTodaysCommits gitLog parseTime repoPath =
     (case gitLog repoPath of
        Inl failure \<Rightarrow>
          (case failure of
             ExitError stderr err \<Rightarrow>
               if Contains stderr ''does not have any commits'' then (([], None), [])
               else (([], Some (Wrap ''git log failed: '' err [])), [])
           | OtherError err \<Rightarrow> (([], Some (Wrap ''git log failed: '' err [])), []))
      | Inr output \<Rightarrow> parseCommits parseTime output repoPath)"

section \<open>Effects\<close>

text \<open>
  What a run does to the world outside, in the order it happens: a line written to the
  logger, a prompt sent to a model, a report handed to \<^verbatim>\<open>report.Write\<close>, a report handed to
  \<^verbatim>\<open>SendReport\<close>, an SMTP attempt (numbered from 1) and a sleep of so many seconds.
\<close>

datatype event =
    Logged string
  | Generated string string
  | Written Report
  | SendReportCalled Report
  | Attempted nat
  | Slept nat

section \<open>Review engine (package review)\<close>

record ReviewOutput =
  Output_Summary :: string
  Output_Findings :: "Finding list"

record Reviewer =
  Reviewer_config :: ReviewConfig
  modelID :: string

definition systemPrompt :: string where
  "systemPrompt = Join
     [''You are a senior software engineer performing a daily code review. Your role is to identify meaningful issues that matter for production code quality.'',
      [],
      ''## Your Review Principles'',
      [],
      ''1. **Signal over noise** '' @ [CHR 0xE2, CHR 0x80, CHR 0x93] @ '' Only flag issues that genuinely matter. If the code looks fine, say so.'',
      ''2. **Mentor mindset** '' @ [CHR 0xE2, CHR 0x80, CHR 0x93] @ '' Explain why something is a problem, not just that it is one.'',
      ''3. **Context-aware** '' @ [CHR 0xE2, CHR 0x80, CHR 0x93] @ '' Consider the language, framework, and apparent intent.'',
      ''4. **No nitpicking** '' @ [CHR 0xE2, CHR 0x80, CHR 0x93] @ '' Ignore formatting, naming style, and minor preferences.'',
      ''5. **Evidence-based** '' @ [CHR 0xE2, CHR 0x80, CHR 0x93] @ '' Only flag issues you can point to in the code.'',
      [],
      ''## What to Look For'',
      [],
      ''- **Bugs**: Logic errors, edge cases, null/nil handling, race conditions'',
      ''- **Security**: Injection risks, auth issues, sensitive data exposure'',
      ''- **Data integrity**: Missing validation, transaction issues, constraint violations'',
      ''- **Design**: Architectural problems, tight coupling, missing abstractions'',
      ''- **Performance**: Obvious inefficiencies, N+1 queries, memory leaks'',
      [],
      ''## What to Ignore'',
      [],
      ''- Formatting and whitespace'',
      ''- Naming conventions (unless truly confusing)'',
      ''- Missing comments (unless logic is complex)'',
      ''- Speculative future problems'',
      ''- Style preferences'']
     newline"

definition outputInstructions :: string where
  "outputInstructions = Join
     [[],
      ''## Required Output Format'',
      [],
      ''Respond with a JSON object in this exact format:'',
      [],
      ''{'',
      ''  '' @ [CHR 0x22] @ ''summary'' @ [CHR 0x22] @ '': '' @ [CHR 0x22] @ ''One or two sentence summary of the changes reviewed'' @ [CHR 0x22] @ '','',
      ''  '' @ [CHR 0x22] @ ''findings'' @ [CHR 0x22] @ '': ['',
      ''    {'',
      ''      '' @ [CHR 0x22] @ ''title'' @ [CHR 0x22] @ '': '' @ [CHR 0x22] @ ''Brief issue title'' @ [CHR 0x22] @ '','',
      ''      '' @ [CHR 0x22] @ ''severity'' @ [CHR 0x22] @ '': '' @ [CHR 0x22] @ ''High|Medium|Low'' @ [CHR 0x22] @ '','',
      ''      '' @ [CHR 0x22] @ ''repo_name'' @ [CHR 0x22] @ '': '' @ [CHR 0x22] @ ''repository-name'' @ [CHR 0x22] @ '','',
      ''      '' @ [CHR 0x22] @ ''files'' @ [CHR 0x22] @ '': ['' @ [CHR 0x22] @ ''file1.go'' @ [CHR 0x22] @ '', '' @ [CHR 0x22] @ ''file2.go'' @ [CHR 0x22] @ ''],'',
      ''      '' @ [CHR 0x22] @ ''explanation'' @ [CHR 0x22] @ '': '' @ [CHR 0x22] @ ''Why this is a problem and what could go wrong'' @ [CHR 0x22] @ '','',
      ''      '' @ [CHR 0x22] @ ''suggested_action'' @ [CHR 0x22] @ '': '' @ [CHR 0x22] @ ''Specific recommendation to fix the issue'' @ [CHR 0x22],
      ''    }'',
      ''  ]'',
      ''}'',
      [],
      ''If no meaningful issues are found, return:'',
      ''{'',
      ''  '' @ [CHR 0x22] @ ''summary'' @ [CHR 0x22] @ '': '' @ [CHR 0x22] @ ''Summary of changes reviewed'' @ [CHR 0x22] @ '','',
      ''  '' @ [CHR 0x22] @ ''findings'' @ [CHR 0x22] @ '': []'',
      ''}'',
      [],
      ''Respond ONLY with the JSON object, no additional text.'']
     newline"

text \<open>
  \<^verbatim>\<open>NewReviewer\<close>: the model identifier is the configured one or the provider's default, with
  the provider's name put in front when it has no slash. The provider plugin it also sets
  up is the field \<open>genkit_GenerateText\<close> of the world below.
\<close>

definition NewReviewer :: "ReviewConfig \<Rightarrow> Reviewer" where
  "NewReviewer cfg =
     (if Provider cfg = ''openai''
      then (let m = (if Review_Model cfg = [] then ''glm-4.7'' else Review_Model cfg);
                m = (if \<not> Contains m ''/'' then ''openai/'' @ m else m)
            in \<lparr>Reviewer_config = cfg, modelID = m\<rparr>)
      else (let m = (if Review_Model cfg = [] then ''gemini-2.0-flash'' else Review_Model cfg);
                m = (if \<not> Contains m ''/'' then ''googleai/'' @ m else m)
            in \<lparr>Reviewer_config = cfg, modelID = m\<rparr>))"

fun buildPrompt_sections :: "Diff list \<Rightarrow> string" where
  "buildPrompt_sections [] = []"
| "buildPrompt_sections (d # diffs) =
     ''### Repository: '' @ RepoName d @ [newline] @
     ''### File: '' @ FilePath d @ '' ('' @ Language d @ '')'' @ [newline] @
     ''```diff'' @ [newline] @
     Content d @
     [newline] @ ''```'' @ [newline, newline] @
     buildPrompt_sections diffs"

definition buildPrompt :: "Diff list \<Rightarrow> string" where
  "buildPrompt diffs =
     systemPrompt @ [newline, newline] @
     ''## Code Changes to Review'' @ [newline, newline] @
     buildPrompt_sections diffs @
     outputInstructions"

text \<open>
  Lines 163-178 of \<^verbatim>\<open>parseResponse\<close>: the text that is handed to \<^verbatim>\<open>json.Unmarshal\<close>. A leading
  \<^verbatim>\<open>```json\<close>, or else a leading \<^verbatim>\<open>```\<close>, is removed together with everything from the last
  \<^verbatim>\<open>```\<close> of the rest on.
\<close>

definition strip_code_fence :: "string \<Rightarrow> string" where
  "strip_code_fence text0 =
     (let text = TrimSpace text0;
          text =
            (if HasPrefix text ''```json''
             then (let text = TrimPrefix text ''```json''; idx = LastIndex text ''```''
                   in if idx \<noteq> - 1 then take (nat idx) text else text)
             else if HasPrefix text ''```''
             then (let text = TrimPrefix text ''```''; idx = LastIndex text ''```''
                   in if idx \<noteq> - 1 then take (nat idx) text else text)
             else text)
      in TrimSpace text)"

text \<open>
  \<^verbatim>\<open>parseResponse\<close>; \<open>unmarshal\<close> is \<^verbatim>\<open>json.Unmarshal\<close> into a \<^verbatim>\<open>ReviewOutput\<close>, a function of the
  standard library.
\<close>

definition parseResponse :: "(string \<Rightarrow> error + ReviewOutput) \<Rightarrow> string \<Rightarrow> error + ReviewOutput" where
  "parseResponse unmarshal text0 =
     (let text = strip_code_fence text0
      in case unmarshal text of
           Inl err \<Rightarrow>
             Inl (Wrap ''failed to parse JSON: '' err (newline # ''Response was: '' @ text))
         | Inr output \<Rightarrow> Inr output)"

text \<open>
  \<^verbatim>\<open>Review\<close>; \<open>generateText\<close> is the call of the model provider with a model name and a
  prompt. The result is the error, or the findings with the summary, and the calls made.
\<close>

definition Review :: "(string \<Rightarrow> string \<Rightarrow> error + string) \<Rightarrow> (string \<Rightarrow> error + ReviewOutput)
    \<Rightarrow> Reviewer \<Rightarrow> Diff list \<Rightarrow> (error + Finding list \<times> string) \<times> event list" where
  "Review generateText unmarshal r diffs =
     (if length diffs = 0 then (Inr ([], ''No changes to review.''), [])
      else let prompt = buildPrompt diffs in
        case generateText (modelID r) prompt of
          Inl err \<Rightarrow> (Inl (Wrap ''generating review: '' err []), [Generated (modelID r) prompt])
        | Inr answer \<Rightarrow>
            (case parseResponse unmarshal answer of
               Inl err \<Rightarrow> (Inl (Wrap ''parsing response: '' err []), [Generated (modelID r) prompt])
             | Inr output \<Rightarrow>
                 (Inr (Output_Findings output, Output_Summary output),
                  [Generated (modelID r) prompt])))"

section \<open>Delivery (package notify)\<close>

text \<open>
  The retry loop of \<^verbatim>\<open>send\<close>. \<open>sendWithTimeout n\<close> is the result of the \<open>n\<close>-th call of
  \<^verbatim>\<open>sendWithTimeout\<close>, each on a connection of its own: \<open>None\<close> when the message was
  delivered.
\<close>

function send_loop :: "(nat \<Rightarrow> error option) \<Rightarrow> nat \<Rightarrow> error option \<Rightarrow> event list
    \<Rightarrow> error option \<times> event list" where
  "send_loop sendWithTimeout attempt lastErr evs =
     (if attempt \<le> 3 then
        (case sendWithTimeout attempt of
           None \<Rightarrow> (None, evs @ [Attempted attempt])
         | Some err \<Rightarrow>
             send_loop sendWithTimeout (attempt + 1) (Some err)
               (evs @ [Attempted attempt,
                       Logged (''Email attempt '' @ decimal attempt @ '' failed: '' @ Error err)]
                    @ (if attempt < 3 then [Slept (attempt * attempt)] else [])))
      else
        (case lastErr of
           Some err \<Rightarrow> (Some (Wrap ''failed after 3 attempts: '' err []), evs)
         | None \<Rightarrow> (Some (Err ''failed after 3 attempts: %!w(<nil>)''), evs)))"
  by pat_completeness auto
termination
  by (relation "measure (\<lambda>(sendWithTimeout, attempt, lastErr, evs). 4 - attempt)") auto

declare send_loop.simps [simp del]

definition send :: "(nat \<Rightarrow> error option) \<Rightarrow> error option \<times> event list" where
  "send sendWithTimeout = send_loop sendWithTimeout 1 None []"

text \<open>
  \<^verbatim>\<open>SendReport\<close> renders the report to a subject and an HTML body and sends them; the retry
  loop does not look at the message.
\<close>

definition SendReport :: "(nat \<Rightarrow> error option) \<Rightarrow> Report \<Rightarrow> error option \<times> event list" where
  "SendReport sendWithTimeout rpt = send sendWithTimeout"

section \<open>Orchestrator (package app)\<close>

text \<open>
  Everything a run reads from outside the program: the file system, the \<^verbatim>\<open>git\<close>
  subprocesses, the clock, the model provider, the JSON decoder, the report writer and the
  mail server.
\<close>

record world =
  os_Stat_missing :: bool
  scanner_FindRepositories :: "string \<Rightarrow> error + string list"
  git_log :: "string \<Rightarrow> cmd_failure + string"
  time_Parse :: "string \<Rightarrow> error + Time"
  git_show_env :: git_show
  genkit_GenerateText :: "string \<Rightarrow> string \<Rightarrow> error + string"
  json_Unmarshal :: "string \<Rightarrow> error + ReviewOutput"
  report_Write :: "Report \<Rightarrow> error + string"
  smtp_sendWithTimeout :: "nat \<Rightarrow> error option"
  time_Now :: Time

text \<open>A run returns an error or \<^verbatim>\<open>nil\<close>, or it panics.\<close>

datatype outcome = Returned "error option" | Panicked

text \<open>
  The progress messages of \<^verbatim>\<open>r.log\<close> are printed in verbose mode only and are not recorded;
  their arguments are evaluated all the same, among them \<^verbatim>\<open>commit.Hash[:8]\<close>, which panics
  on a hash of fewer than 8 bytes.
\<close>

fun locate_commits :: "world \<Rightarrow> string list \<Rightarrow> Commit list \<times> event list
    \<Rightarrow> Commit list \<times> event list" where
  "locate_commits w [] (allCommits, evs) = (allCommits, evs)"
| "locate_commits w (repoPath # repos) (allCommits, evs) =
     (case GetTodaysCommits (git_log w) (time_Parse w) repoPath of
        ((commits, Some err), logged) \<Rightarrow>
          locate_commits w repos (allCommits, evs @ map Logged logged)
      | ((commits, None), logged) \<Rightarrow>
          locate_commits w repos (allCommits @ commits, evs @ map Logged logged))"

fun extract_diffs :: "world \<Rightarrow> Commit list \<Rightarrow> Diff list \<times> event list
    \<Rightarrow> Diff list option \<times> event list" where
  "extract_diffs w [] (allDiffs, evs) = (Some allDiffs, evs)"
| "extract_diffs w (commit # commits) (allDiffs, evs) =
     (case Extract (git_show_env w) commit of
        (Inl err, logged) \<Rightarrow>
          if length (Hash commit) < 8 then (None, evs @ map Logged logged)
          else extract_diffs w commits (allDiffs, evs @ map Logged logged)
      | (Inr diffs, logged) \<Rightarrow>
          extract_diffs w commits (allDiffs @ diffs, evs @ map Logged logged))"

text \<open>The report that \<^verbatim>\<open>handleNoFindings\<close> builds, for the statements below.\<close>

definition nothing_report :: "world \<Rightarrow> Report" where
  "nothing_report w =
     \<lparr>Date = time_Now w, Summary = ''No code changes to review today.'', Findings = [],
      Repositories = [], CommitCount = 0, FileCount = 0, NothingToNote = True, Model = []\<rparr>"

definition handleNoFindings :: "world \<Rightarrow> error option \<times> event list" where
  "handleNoFindings w =
     (let rpt = \<lparr>Date = time_Now w, Summary = ''No code changes to review today.'', Findings = [],
                 Repositories = [], CommitCount = 0, FileCount = 0, NothingToNote = True,
                 Model = []\<rparr>
      in case report_Write w rpt of
           Inl err \<Rightarrow> (Some (Wrap ''writing report: '' err []), [Written rpt])
         | Inr reportPath \<Rightarrow> (None, [Written rpt]))"

text \<open>Step 6 of \<^verbatim>\<open>Run\<close> (lines 286-299): the email notification.\<close>

definition notify_step :: "world \<Rightarrow> Config \<Rightarrow> Report \<Rightarrow> error option \<times> event list" where
  "notify_step w cfg rpt =
     (if Enabled (Config_Email cfg) \<and> HasFindings rpt then
        (case SendReport (smtp_sendWithTimeout w) rpt of
           (Some err, evs) \<Rightarrow> (Some (Wrap ''sending email: '' err []), SendReportCalled rpt # evs)
         | (None, evs) \<Rightarrow> (None, SendReportCalled rpt # evs))
      else (None, []))"

text \<open>Steps 4 to 6 of \<^verbatim>\<open>Run\<close> (lines 254-304): review, report, notification.\<close>

definition review_steps :: "world \<Rightarrow> Config \<Rightarrow> string list \<Rightarrow> Commit list \<Rightarrow> Diff list
    \<Rightarrow> error option \<times> event list" where
  "review_steps w cfg repos allCommits allDiffs =
     (case Review (genkit_GenerateText w) (json_Unmarshal w) (NewReviewer (Config_Review cfg)) allDiffs of
        (Inl err, evs) \<Rightarrow> (Some (Wrap ''reviewing code: '' err []), evs)
      | (Inr (findings, summary), evs) \<Rightarrow>
          (let rpt = \<lparr>Date = time_Now w, Summary = summary, Findings = findings,
                      Repositories = repos, CommitCount = int (length allCommits),
                      FileCount = int (length allDiffs), NothingToNote = False, Model = []\<rparr>
           in case report_Write w rpt of
                Inl err \<Rightarrow> (Some (Wrap ''writing report: '' err []), evs @ [Written rpt])
              | Inr reportPath \<Rightarrow>
                  (let (err, sent) = notify_step w cfg rpt
                   in (err, evs @ [Written rpt] @ sent))))"

definition Run :: "world \<Rightarrow> Config \<Rightarrow> outcome \<times> event list" where
  "Run w cfg =
     (case Validate (os_Stat_missing w) cfg of
        Some err \<Rightarrow> (Returned (Some (Wrap ''invalid configuration: '' err [])), [])
      | None \<Rightarrow>
          (case scanner_FindRepositories w (RootPath cfg) of
             Inl err \<Rightarrow> (Returned (Some (Wrap ''scanning repositories: '' err [])), [])
           | Inr repos \<Rightarrow>
               if length repos = 0 then (Returned None, [])
               else
                 (let (allCommits, located) = locate_commits w repos ([], []) in
                  if length allCommits = 0
                  then (let (err, evs) = handleNoFindings w in (Returned err, located @ evs))
                  else
                    (case extract_diffs w allCommits ([], located) of
                       (None, extracted) \<Rightarrow> (Panicked, extracted)
                     | (Some allDiffs, extracted) \<Rightarrow>
                         if length allDiffs = 0
                         then (let (err, evs) = handleNoFindings w
                               in (Returned err, extracted @ evs))
                         else (let (err, evs) = review_steps w cfg repos allCommits allDiffs
                               in (Returned err, extracted @ evs))))))"

section \<open>Example inputs\<close>

text \<open>A commit with four changed files: one under \<^verbatim>\<open>vendor/\<close>, one with an unsupported
  extension, one whose diff has 301 lines and one whose diff has 300.\<close>

definition ex_commit :: Commit where
  "ex_commit = \<lparr>Hash = ''0123456789abcdef'', Author = ''dev'', Email = ''dev@example.com'',
      Timestamp = Time 0 0, Message = ''work'', Commit_RepoPath = ''/home/dev/projects/api'',
      Commit_RepoName = ''api''\<rparr>"

definition ex_long_diff :: string where
  "ex_long_diff = concat (replicate 300 (''+x'' @ [newline]))"

definition ex_short_diff :: string where
  "ex_short_diff = concat (replicate 299 (''+x'' @ [newline]))"

definition ex_git :: git_show where
  "ex_git = \<lparr>getChangedFiles = (\<lambda>repo hash. Inr [''vendor/lib.go'', ''main.go'', ''README.md'', ''util.go'']),
     getFileDiff = (\<lambda>repo hash file. Inr (if file = ''main.go'' then ex_long_diff else ex_short_diff))\<rparr>"


text \<open>
  A model answer whose finding has a severity outside the enumeration, the value it decodes
  to, and a decoder that agrees with \<^verbatim>\<open>json.Unmarshal\<close> on the texts of the examples (it is a
  stand-in elsewhere). A mail server that refuses the first two connections and one that
  refuses all. A \<^verbatim>\<open>git log\<close> output with a line that is no record and one with a bad timestamp.
\<close>

definition quoted :: "string \<Rightarrow> string" where
  "quoted s = CHR 0x22 # s @ [CHR 0x22]"

definition ex_response :: string where
  "ex_response =
     ''{'' @ quoted ''summary'' @ '': '' @ quoted ''One change reviewed.'' @ '', '' @
     quoted ''findings'' @ '': [{'' @ quoted ''title'' @ '': '' @ quoted ''Unchecked error'' @ '', '' @
     quoted ''severity'' @ '': '' @ quoted ''Critical'' @ ''}]}''"

definition ex_output :: ReviewOutput where
  "ex_output =
     \<lparr>Output_Summary = ''One change reviewed.'',
      Output_Findings =
        [\<lparr>Title = ''Unchecked error'', Severity = ''Critical'', Finding_RepoName = [],
          Files = [], Explanation = [], Action = []\<rparr>]\<rparr>"

definition ex_Unmarshal :: "string \<Rightarrow> error + ReviewOutput" where
  "ex_Unmarshal text =
     (if text = ''{}'' then Inr \<lparr>Output_Summary = [], Output_Findings = []\<rparr>
      else if text = ex_response then Inr ex_output
      else if text = ''javascript'' @ [newline] @ ''{}''
        then Inl (Err (''invalid character '' @ [CHR 0x27] @ ''j'' @ [CHR 0x27] @
                       '' looking for beginning of value''))
      else Inl (Err ''unexpected end of JSON input''))"

definition flaky_smtp :: "nat \<Rightarrow> error option" where
  "flaky_smtp n = (if n < 3 then Some (Err ''connecting to SMTP server: connection refused'') else None)"

definition dead_smtp :: "nat \<Rightarrow> error option" where
  "dead_smtp n = Some (Err ''connecting to SMTP server: connection refused'')"

definition ex_parseTime :: "string \<Rightarrow> error + Time" where
  "ex_parseTime s =
     (if s = ''2024-05-01T10:00:00Z'' then Inr (Time 1714557600000000000 0)
      else if s = ''2024-05-01T11:30:00Z'' then Inr (Time 1714563000000000000 0)
      else Inl (Err ''cannot parse''))"

definition ex_log_output :: string where
  "ex_log_output =
     ''0123456789abcdef|Dev|dev@example.com|2024-05-01T10:00:00Z|Add parser'' @ [newline] @
     ''not a record'' @ [newline] @
     ''89abcdef01234567|Dev|dev@example.com|yesterday|Fix scanner'' @ [newline] @
     ''fedcba9876543210|Dev|dev@example.com|2024-05-01T11:30:00Z|Split a|b'' @ [newline]"

text \<open>
  A configuration with email enabled and a world with one repository, the log above, the
  files of the example commit, a model that gives the example answer and the mail server
  that refuses twice; the same world with no repository, with an empty log, and with
  changed files that are all filtered out.
\<close>

definition ex_config :: Config where
  "ex_config =
     \<lparr>RootPath = ''/home/dev/projects'',
      Config_Email = \<lparr>Enabled = True, SendAt = ''08:00'', SMTPHost = ''smtp.example.com'',
                       SMTPPort = 587, SMTPUser = [], SMTPPassword = [],
                       FromAddress = ''cra@example.com'', FromName = ''Code Review Agent'',
                       ToAddress = ''dev@example.com''\<rparr>,
      Config_Review = \<lparr>Strictness = ''medium'', Provider = ''openai'', Review_Model = ''glm-4.7'',
                        APIKey = [], BaseURL = ''https://api.z.ai/api/paas/v4''\<rparr>,
      Reports = \<lparr>OutputDir = ''reports''\<rparr>,
      Verbose = False\<rparr>"

definition ex_world :: world where
  "ex_world =
     \<lparr>os_Stat_missing = False,
      scanner_FindRepositories = (\<lambda>root. Inr [''/home/dev/projects/api'']),
      git_log = (\<lambda>repoPath. Inr ex_log_output),
      time_Parse = ex_parseTime,
      git_show_env = ex_git,
      genkit_GenerateText = (\<lambda>model prompt. Inr ex_response),
      json_Unmarshal = ex_Unmarshal,
      report_Write = (\<lambda>rpt. Inr ''reports/2024-05-01.md''),
      smtp_sendWithTimeout = flaky_smtp,
      time_Now = Time 1714600800000000000 0\<rparr>"

definition ex_world_no_repos :: world where
  "ex_world_no_repos = ex_world\<lparr>scanner_FindRepositories := (\<lambda>root. Inr [])\<rparr>"

definition ex_world_no_commits :: world where
  "ex_world_no_commits = ex_world\<lparr>git_log := (\<lambda>repoPath. Inr [])\<rparr>"

definition ex_world_no_diffs :: world where
  "ex_world_no_diffs =
     ex_world\<lparr>git_show_env :=
       \<lparr>getChangedFiles = (\<lambda>repo hash. Inr [''vendor/lib.go'', ''README.md'']),
        getFileDiff = (\<lambda>repo hash file. Inr ex_short_diff)\<rparr>\<rparr>"

definition ex_commits :: "Commit list" where
  "ex_commits =
     [\<lparr>Hash = ''0123456789abcdef'', Author = ''Dev'', Email = ''dev@example.com'',
        Timestamp = Time 1714557600000000000 0, Message = ''Add parser'',
        Commit_RepoPath = ''/home/dev/projects/api'', Commit_RepoName = ''api''\<rparr>,
      \<lparr>Hash = ''fedcba9876543210'', Author = ''Dev'', Email = ''dev@example.com'',
        Timestamp = Time 1714563000000000000 0, Message = ''Split a|b'',
        Commit_RepoPath = ''/home/dev/projects/api'', Commit_RepoName = ''api''\<rparr>]"

definition ex_run_report :: Report where
  "ex_run_report =
     \<lparr>Date = Time 1714600800000000000 0, Summary = ''One change reviewed.'',
      Findings = Output_Findings ex_output, Repositories = [''/home/dev/projects/api''],
      CommitCount = 2, FileCount = 4, NothingToNote = False, Model = []\<rparr>"

definition ex_diffs :: "Diff list" where
  "ex_diffs =
     [make_diff (ex_commits ! 0) ''main.go'' ''go'' ex_long_diff,
      make_diff (ex_commits ! 0) ''util.go'' ''go'' ex_short_diff,
      make_diff (ex_commits ! 1) ''main.go'' ''go'' ex_long_diff,
      make_diff (ex_commits ! 1) ''util.go'' ''go'' ex_short_diff]"

section \<open>Properties of the string functions\<close>

lemma Split_nonempty: "Split s sep \<noteq> []"
  by (induction s) auto

lemma Contains_iff: "Contains s sub \<longleftrightarrow> (\<exists>a b. s = a @ sub @ b)"
proof (induction s)
  case Nil
  then show ?case by (auto simp: HasPrefix_def)
next
  case (Cons c s)
  have hp: "HasPrefix (c # s) sub \<longleftrightarrow> (\<exists>b. c # s = sub @ b)"
    unfolding HasPrefix_def
    by (metis append_eq_conv_conj append_take_drop_id length_append le_add1)
  show ?case
  proof
    assume "Contains (c # s) sub"
    then consider "HasPrefix (c # s) sub" | "Contains s sub" by auto
    then show "\<exists>a b. c # s = a @ sub @ b"
    proof cases
      case 1
      then obtain b where "c # s = sub @ b" using hp by blast
      then show ?thesis by (metis append_Nil)
    next
      case 2
      then obtain a b where "s = a @ sub @ b" using Cons.IH by blast
      then have "c # s = (c # a) @ sub @ b" by simp
      then show ?thesis by blast
    qed
  next
    assume "\<exists>a b. c # s = a @ sub @ b"
    then obtain a b where ab: "c # s = a @ sub @ b" by blast
    show "Contains (c # s) sub"
    proof (cases a)
      case Nil
      then have "HasPrefix (c # s) sub" using ab hp by auto
      then show ?thesis by simp
    next
      case (Cons x a')
      then have "s = a' @ sub @ b" using ab by simp
      then show ?thesis using Cons.IH by auto
    qed
  qed
qed


lemma Split_line_then_sep: "sep \<notin> set l \<Longrightarrow> Split (l @ sep # rest) sep = l # Split rest sep"
  by (induction l) auto




lemma Join_Split: "Join (Split s sep) sep = s"
proof (induction s)
  case Nil
  then show ?case by simp
next
  case (Cons c s)
  have ne: "Split s sep \<noteq> []" by (rule Split_nonempty)
  then obtain h t where ht: "Split s sep = h # t" by (cases "Split s sep") auto
  show ?case
  proof (cases "c = sep")
    case True
    with Cons ht show ?thesis by simp
  next
    case False
    with Cons ht show ?thesis by (cases t) auto
  qed
qed


lemma HasPrefix_append: "HasPrefix (p @ s) p"
  by (simp add: HasPrefix_def)

lemma HasPrefix_append_same: "HasPrefix (p @ s) (p @ q) \<longleftrightarrow> HasPrefix s q"
  by (simp add: HasPrefix_def)

lemma HasPrefix_Cons: "HasPrefix s (c # q) \<longleftrightarrow> s \<noteq> [] \<and> hd s = c \<and> HasPrefix (tl s) q"
  by (cases s) (auto simp: HasPrefix_def)

lemma TrimPrefix_append: "TrimPrefix (p @ s) p = s"
  by (simp add: TrimPrefix_def HasPrefix_def)

lemma LastIndex_suffix: "LastIndex (X @ sub) sub = int (length X)"
proof (cases "length X")
  case 0
  then show ?thesis by (simp add: LastIndex_def HasPrefix_def)
next
  case (Suc i)
  then show ?thesis by (simp add: LastIndex_def HasPrefix_def)
qed

lemma SplitN_length: "length (SplitN s sep n) \<le> n"
  by (induction s sep n rule: SplitN.induct) auto

lemma SplitN_empty: "SplitN [] sep 5 = [[]]"
  by (simp add: eval_nat_numeral)

lemma five_parts:
  assumes "\<not> length (SplitN line sep 5) < 5"
  shows "SplitN line sep 5 = [SplitN line sep 5 ! 0, SplitN line sep 5 ! 1, SplitN line sep 5 ! 2,
                              SplitN line sep 5 ! 3, SplitN line sep 5 ! 4]"
proof -
  have "length (SplitN line sep 5) = 5" using assms SplitN_length[of line sep 5] by simp
  then show ?thesis
    by (auto simp: list_eq_iff_nth_eq eval_nat_numeral less_Suc_eq)
qed

lemma fewer_parts:
  assumes "length (SplitN line sep 5) < 5"
  shows "(case SplitN line sep 5 of [a, b, c, d, e] \<Rightarrow> f a b c d e | _ \<Rightarrow> g) = g"
  using assms by (auto split: list.splits)

lemma decimal_digit: "n < 10 \<Longrightarrow> decimal n = [digit n]"
  by (subst decimal.simps) simp

section \<open>Trimming white space\<close>

lemma trim_front_none: "leading_rune runes s = 0 \<Longrightarrow> trim_front runes s = s"
  by (subst trim_front.simps) simp

lemma trim_front_some:
  "0 < leading_rune runes s \<Longrightarrow> trim_front runes s = trim_front runes (drop (leading_rune runes s) s)"
  by (subst trim_front.simps) simp

lemma leading_rune_trimmed: "leading_rune runes (trim_front runes s) = 0"
proof (induction runes s rule: trim_front.induct)
  case (1 runes s)
  show ?case
  proof (cases "0 < leading_rune runes s")
    case True
    with 1 show ?thesis by (simp add: trim_front_some)
  next
    case False
    then show ?thesis by (simp add: trim_front_none)
  qed
qed

lemma trim_front_idem: "trim_front runes (trim_front runes s) = trim_front runes s"
  by (rule trim_front_none) (rule leading_rune_trimmed)

lemma trim_front_suffix: "\<exists>p. s = p @ trim_front runes s"
proof (induction runes s rule: trim_front.induct)
  case (1 runes s)
  show ?case
  proof (cases "0 < leading_rune runes s")
    case True
    with 1 obtain p where "drop (leading_rune runes s) s = p @ trim_front runes (drop (leading_rune runes s) s)"
      by blast
    then have "s = (take (leading_rune runes s) s @ p) @ trim_front runes s"
      using True by (metis append.assoc append_take_drop_id trim_front_some)
    then show ?thesis by blast
  next
    case False
    then show ?thesis by (simp add: trim_front_none)
  qed
qed

lemma leading_rune_cases:
  "leading_rune runes s = 0 \<or> (\<exists>r\<in>set runes. HasPrefix s r \<and> leading_rune runes s = length r)"
  by (induction runes) auto

lemma leading_rune_zero: "(\<forall>r\<in>set runes. \<not> HasPrefix s r) \<Longrightarrow> leading_rune runes s = 0"
  by (induction runes) auto

lemma leading_rune_cong:
  "(\<forall>r\<in>set runes. HasPrefix s r \<longleftrightarrow> HasPrefix t r) \<Longrightarrow> leading_rune runes s = leading_rune runes t"
  by (induction runes) auto

text \<open>A byte that starts no rune stops the trimming.\<close>

lemma leading_rune_other:
  "[] \<notin> set runes \<Longrightarrow> c \<notin> hd ` set runes \<Longrightarrow> leading_rune runes (c # s) = 0"
proof (rule leading_rune_zero, rule ballI)
  fix r assume a: "[] \<notin> set runes" "c \<notin> hd ` set runes" "r \<in> set runes"
  then obtain x xs where r: "r = x # xs" by (cases r) auto
  with a have "x \<noteq> c" by force
  then show "\<not> HasPrefix (c # s) r" by (auto simp: r HasPrefix_def)
qed

lemma HasPrefix_append_ascii:
  assumes tails: "\<forall>r\<in>set runes. \<forall>c\<in>set (tl r). \<not> asciiSpace c"
    and "r \<in> set runes" and "X \<noteq> []" and sp: "\<forall>c\<in>set s2. asciiSpace c"
  shows "HasPrefix (X @ s2) r \<longleftrightarrow> HasPrefix X r"
proof
  assume "HasPrefix X r"
  then show "HasPrefix (X @ s2) r" by (auto simp: HasPrefix_def)
next
  assume h: "HasPrefix (X @ s2) r"
  show "HasPrefix X r"
  proof (cases "length r \<le> length X")
    case True
    with h show ?thesis by (auto simp: HasPrefix_def)
  next
    case False
    from h have eq: "take (length r) (X @ s2) = r" and len: "length r \<le> length X + length s2"
      by (auto simp: HasPrefix_def)
    let ?i = "length X"
    have i: "?i < length r" "0 < ?i" using False assms(3) by auto
    have "r ! ?i = (X @ s2) ! ?i" using eq i by (metis nth_take)
    also have "\<dots> = s2 ! 0" by (simp add: nth_append)
    finally have "r ! ?i = s2 ! 0" .
    moreover have "s2 \<noteq> []" using len i by auto
    ultimately have "asciiSpace (r ! ?i)" using sp by (metis nth_mem length_greater_0_conv)
    moreover have "r ! ?i \<in> set (tl r)"
      using i by (metis List.nth_tl Suc_pred length_tl less_diff_conv nth_mem Suc_eq_plus1)
    ultimately show ?thesis using tails assms(2) by blast
  qed
qed

lemma trim_front_append_ascii:
  "\<forall>r\<in>set runes. \<forall>c\<in>set (tl r). \<not> asciiSpace c \<Longrightarrow> \<forall>c\<in>set s2. asciiSpace c \<Longrightarrow>
   trim_front runes X \<noteq> [] \<Longrightarrow> trim_front runes (X @ s2) = trim_front runes X @ s2"
proof (induction runes X rule: trim_front.induct)
  case (1 runes s)
  have ne: "s \<noteq> []" using "1.prems"(3) by (metis append_is_Nil_conv trim_front_suffix)
  have same: "leading_rune runes (s @ s2) = leading_rune runes s"
    by (rule leading_rune_cong) (use HasPrefix_append_ascii[OF "1.prems"(1) _ ne "1.prems"(2)] in blast)
  show ?case
  proof (cases "0 < leading_rune runes s")
    case True
    have le: "leading_rune runes s \<le> length s"
      using leading_rune_cases[of runes s] by (auto simp: HasPrefix_def)
    have "trim_front runes (s @ s2) = trim_front runes (drop (leading_rune runes s) s @ s2)"
      using True same le by (simp add: trim_front_some)
    also have "\<dots> = trim_front runes (drop (leading_rune runes s) s) @ s2"
      using "1.IH"[OF True "1.prems"(1,2)] "1.prems"(3) True by (simp add: trim_front_some)
    finally show ?thesis using True by (simp add: trim_front_some)
  next
    case False
    then show ?thesis using same by (simp add: trim_front_none)
  qed
qed

lemma space_runes_nonempty: "[] \<notin> set space_runes" "[] \<notin> set (map rev space_runes)"
  by (simp_all add: space_runes_def)

lemma space_runes_tails:
  "\<forall>r\<in>set space_runes. \<forall>c\<in>set (tl r). \<not> asciiSpace c"
  "\<forall>r\<in>set (map rev space_runes). \<forall>c\<in>set (tl r). \<not> asciiSpace c"
  by (simp_all add: space_runes_def asciiSpace_def)

lemma backtick_no_rune:
  "CHR ''`'' \<notin> hd ` set space_runes" "CHR ''`'' \<notin> hd ` set (map rev space_runes)"
  by (simp_all add: space_runes_def)

lemma brace_no_rune: "CHR ''{'' \<notin> hd ` set space_runes"
  by (simp add: space_runes_def)

lemma j_no_rune: "CHR ''j'' \<notin> hd ` set space_runes"
  by (simp add: space_runes_def)

lemma leading_rune_Nil: "[] \<notin> set runes \<Longrightarrow> leading_rune runes [] = 0"
  by (induction runes) (auto simp: HasPrefix_def)

lemma leading_ascii_front: "asciiSpace c \<Longrightarrow> leading_rune space_runes (c # s) = 1"
  unfolding asciiSpace_def
  by (elim insertE emptyE; simp add: space_runes_def HasPrefix_def)

lemma leading_ascii_back: "asciiSpace c \<Longrightarrow> leading_rune (map rev space_runes) (c # s) = 1"
  unfolding asciiSpace_def
  by (elim insertE emptyE; simp add: space_runes_def HasPrefix_def)

lemma trim_front_ascii:
  "\<forall>c\<in>set sp. asciiSpace c \<Longrightarrow> trim_front space_runes (sp @ s) = trim_front space_runes s"
  "\<forall>c\<in>set sp. asciiSpace c \<Longrightarrow>
     trim_front (map rev space_runes) (sp @ s) = trim_front (map rev space_runes) s"
  by (induction sp) (simp_all add: trim_front_some leading_ascii_front leading_ascii_back)

lemma TrimSpace_fence:
  assumes "\<forall>c\<in>set s0. asciiSpace c" and "\<forall>c\<in>set s3. asciiSpace c"
  shows "TrimSpace (s0 @ ''```'' @ M @ ''```'' @ s3) = ''```'' @ M @ ''```''"
proof -
  have fr: "trim_front space_runes (s0 @ ''```'' @ M @ ''```'' @ s3) = ''```'' @ M @ ''```'' @ s3"
    using trim_front_ascii(1)[OF assms(1)]
      leading_rune_other[OF space_runes_nonempty(1) backtick_no_rune(1)]
    by (simp add: trim_front_none)
  have sp: "\<forall>c\<in>set (rev s3). asciiSpace c" using assms(2) by simp
  have "rev (''```'' @ M @ ''```'' @ s3) = rev s3 @ (CHR ''`'' # ''``'' @ rev M @ ''```'')" by simp
  then have bk: "trim_front (map rev space_runes) (rev (''```'' @ M @ ''```'' @ s3))
      = CHR ''`'' # ''``'' @ rev M @ ''```''"
    using trim_front_ascii(2)[OF sp]
      leading_rune_other[OF space_runes_nonempty(2) backtick_no_rune(2)]
    by (simp add: trim_front_none)
  show ?thesis unfolding TrimSpace_def fr bk by simp
qed

lemma TrimSpace_pad:
  assumes "\<forall>c\<in>set s1. asciiSpace c" and "\<forall>c\<in>set s2. asciiSpace c" and "TrimSpace J \<noteq> []"
  shows "TrimSpace (s1 @ J @ s2) = TrimSpace J"
proof -
  have ne: "trim_front space_runes J \<noteq> []"
  proof
    assume "trim_front space_runes J = []"
    then have "TrimSpace J = []"
      using trim_front_none[OF leading_rune_Nil[OF space_runes_nonempty(2)]]
      by (simp add: TrimSpace_def)
    with assms(3) show False by simp
  qed
  have "trim_front space_runes (s1 @ J @ s2) = trim_front space_runes J @ s2"
    using trim_front_ascii(1)[OF assms(1)]
      trim_front_append_ascii[OF space_runes_tails(1) assms(2) ne] by simp
  moreover have "\<forall>c\<in>set (rev s2). asciiSpace c" using assms(2) by simp
  ultimately show ?thesis
    unfolding TrimSpace_def using trim_front_ascii(2)[of "rev s2"] by simp
qed

lemma TrimSpace_idem:
  assumes "HasPrefix (TrimSpace J) ''{''"
  shows "TrimSpace (TrimSpace J) = TrimSpace J"
proof -
  from assms obtain rest where t: "TrimSpace J = CHR ''{'' # rest"
    by (cases "TrimSpace J") (auto simp: HasPrefix_def)
  have fr: "trim_front space_runes (TrimSpace J) = TrimSpace J"
    unfolding t
    using leading_rune_other[OF space_runes_nonempty(1) brace_no_rune] by (simp add: trim_front_none)
  have "rev (TrimSpace J) = trim_front (map rev space_runes) (rev (trim_front space_runes J))"
    by (simp add: TrimSpace_def)
  then have bk: "trim_front (map rev space_runes) (rev (TrimSpace J)) = rev (TrimSpace J)"
    by (simp add: trim_front_idem)
  show ?thesis
    by (subst (1) TrimSpace_def) (simp add: fr bk)
qed

lemma object_first_byte:
  assumes "HasPrefix (TrimSpace J) ''{''"
  shows "J \<noteq> [] \<and> hd J \<noteq> CHR ''j'' \<and> hd J \<noteq> CHR ''`''"
proof -
  from assms obtain rest where t: "TrimSpace J = CHR ''{'' # rest"
    by (cases "TrimSpace J") (auto simp: HasPrefix_def)
  let ?L = "trim_front space_runes J"
  obtain p where "rev ?L = p @ trim_front (map rev space_runes) (rev ?L)"
    using trim_front_suffix by blast
  then have "rev (rev ?L) = rev (p @ trim_front (map rev space_runes) (rev ?L))" by simp
  then have L: "?L = CHR ''{'' # rest @ rev p"
    using t by (simp add: TrimSpace_def)
  show ?thesis
  proof (cases "leading_rune space_runes J = 0")
    case True
    then have "J = CHR ''{'' # rest @ rev p" using L by (simp add: trim_front_none)
    then show ?thesis by simp
  next
    case False
    then obtain r where r: "r \<in> set space_runes" "HasPrefix J r"
      using leading_rune_cases[of space_runes J] by auto
    then have rne: "r \<noteq> []" using space_runes_nonempty(1) by auto
    then have "J \<noteq> []" "hd J = hd r"
      using r(2) by (auto simp: HasPrefix_def) (metis hd_take length_greater_0_conv)
    moreover have "hd r \<in> hd ` set space_runes" using r(1) by simp
    ultimately show ?thesis using j_no_rune backtick_no_rune(1) by metis
  qed
qed

section \<open>The diff extractor: truncation and filtering\<close>

lemma Extract_loop_origin:
  "Extract_loop g c files (ds, lg) = (ds', lg') \<Longrightarrow> d \<in> set ds' \<Longrightarrow>
   d \<in> set ds \<or>
   (\<exists>f lang raw. f \<in> set files \<and> SupportedExtensions (Ext f) = Some lang \<and> \<not> shouldExclude f \<and>
      getFileDiff g (Commit_RepoPath c) (Hash c) f = Inr raw \<and> d = make_diff c f lang raw)"
proof (induction files arbitrary: ds lg)
  case Nil
  then show ?case by simp
next
  case (Cons f files)
  show ?case
  proof (cases "SupportedExtensions (Ext f)")
    case None
    with Cons.prems Cons.IH[of ds lg] show ?thesis by auto
  next
    case (Some lang)
    show ?thesis
    proof (cases "shouldExclude f")
      case True
      with Some Cons.prems Cons.IH[of ds lg] show ?thesis by auto
    next
      case False
      show ?thesis
      proof (cases "getFileDiff g (Commit_RepoPath c) (Hash c) f")
        case (Inl err)
        with Some False Cons.prems
          Cons.IH[of ds "lg @ [''Warning: failed to get diff for '' @ f @ '': '' @ Error err]"]
        show ?thesis by auto
      next
        case (Inr raw)
        with Some False Cons.prems Cons.IH[of "ds @ [make_diff c f lang raw]" lg]
        show ?thesis by auto
      qed
    qed
  qed
qed




lemma Extract_origin:
  assumes "Extract g commit = (Inr diffs, logged)" and "d \<in> set diffs"
  shows "\<exists>lang raw. SupportedExtensions (Ext (FilePath d)) = Some lang \<and> \<not> shouldExclude (FilePath d) \<and>
      getFileDiff g (Commit_RepoPath commit) (Hash commit) (FilePath d) = Inr raw \<and>
      d = make_diff commit (FilePath d) lang raw"
proof -
  from assms(1) obtain files where
    loop: "Extract_loop g commit files ([], []) = (diffs, logged)"
    by (auto simp: Extract_def split: sum.splits prod.splits)
  from Extract_loop_origin[OF loop assms(2)] obtain f lang raw where
    f: "SupportedExtensions (Ext f) = Some lang" "\<not> shouldExclude f"
       "getFileDiff g (Commit_RepoPath commit) (Hash commit) f = Inr raw"
       "d = make_diff commit f lang raw"
    by auto
  have "FilePath d = f" using f(4) by (simp add: make_diff_def split: prod.splits)
  with f show ?thesis by auto
qed

lemma make_diff_fields:
  "FilePath (make_diff c f lang raw) = f"
  "Language (make_diff c f lang raw) = lang"
  "Content (make_diff c f lang raw) = fst (truncate_content raw)"
  "LineCount (make_diff c f lang raw) = snd (truncate_content raw)"
  by (simp_all add: make_diff_def split: prod.splits)

lemma shouldExclude_loop_iff: "shouldExclude_loop path es \<longleftrightarrow> (\<exists>e\<in>set es. Contains path e)"
  by (induction es) auto



lemma ex_Extract_any:
  "Extract ex_git c =
     (Inr [make_diff c ''main.go'' ''go'' ex_long_diff, make_diff c ''util.go'' ''go'' ex_short_diff], [])"
  by (simp add: Extract_def ex_git_def SupportedExtensions_def Ext_def IsPathSeparator_def
      shouldExclude_def excludePaths_def HasPrefix_def)

lemma ex_Extract:
  "Extract ex_git ex_commit =
     (Inr [make_diff ex_commit ''main.go'' ''go'' ex_long_diff,
           make_diff ex_commit ''util.go'' ''go'' ex_short_diff], [])"
  by (rule ex_Extract_any)





text \<open>
  Claim C2. Every diff unit that \<^verbatim>\<open>Extract\<close> returns has a file path whose extension is a key
  of \<^verbatim>\<open>SupportedExtensions\<close>, carries the mapped language tag, and has a path that contains
  none of the exclusion substrings.
\<close>

theorem C2_supported_and_not_excluded:
  assumes "Extract g commit = (Inr diffs, logged)" and "d \<in> set diffs"
  shows "SupportedExtensions (Ext (FilePath d)) = Some (Language d) \<and>
         Ext (FilePath d) \<in> dom SupportedExtensions \<and>
         \<not> shouldExclude (FilePath d) \<and>
         (\<forall>e\<in>set excludePaths. \<not> (\<exists>a b. FilePath d = a @ e @ b))"
proof -
  from Extract_origin[OF assms] obtain lang raw where
    lang: "SupportedExtensions (Ext (FilePath d)) = Some lang"
    and ex: "\<not> shouldExclude (FilePath d)"
    and d: "d = make_diff commit (FilePath d) lang raw"
    by blast
  have "Language d = lang" using d make_diff_fields(2)[of commit "FilePath d" lang raw] by simp
  moreover have "\<forall>e\<in>set excludePaths. \<not> (\<exists>a b. FilePath d = a @ e @ b)"
    using ex by (simp add: shouldExclude_def shouldExclude_loop_iff Contains_iff)
  ultimately show ?thesis using lang ex by auto
qed

text \<open>Claim C2 at the example commit: the vendored Go file is left out.\<close>

theorem C2_witness:
  "shouldExclude ''vendor/lib.go'' \<and> SupportedExtensions (Ext ''vendor/lib.go'') = Some ''go'' \<and>
   map FilePath (projr (fst (Extract ex_git ex_commit))) = [''main.go'', ''util.go''] \<and>
   Language (make_diff ex_commit ''main.go'' ''go'' ex_long_diff) = ''go'' \<and>
   \<not> shouldExclude ''main.go''"
proof -
  let ?d = "make_diff ex_commit ''main.go'' ''go'' ex_long_diff"
  have mem: "?d \<in> set [?d, make_diff ex_commit ''util.go'' ''go'' ex_short_diff]" by simp
  have fp: "FilePath ?d = ''main.go''" by (simp add: make_diff_fields)
  have v: "shouldExclude ''vendor/lib.go''"
    by (simp add: shouldExclude_def excludePaths_def HasPrefix_def)
  have s: "SupportedExtensions (Ext ''vendor/lib.go'') = Some ''go''"
    by (simp add: SupportedExtensions_def Ext_def IsPathSeparator_def)
  from C2_supported_and_not_excluded[OF ex_Extract mem] fp v s
  show ?thesis by (simp add: ex_Extract make_diff_fields)
qed

section \<open>The commit locator: malformed records\<close>

lemma parseCommits_loop_eq:
  "parseCommits_loop parseTime repoPath repoName lines (commits, logged) =
     (commits @ List.map_filter (commit_of_record parseTime repoPath repoName) lines,
      logged @ List.map_filter (warning_of_record parseTime) lines)"
proof (induction lines arbitrary: commits logged)
  case Nil
  then show ?case by (simp add: List.map_filter_simps)
next
  case (Cons line lines)
  show ?case
  proof (cases "length (SplitN line (CHR ''|'') 5) < 5")
    case True
    then have "commit_of_record parseTime repoPath repoName line = None"
      "warning_of_record parseTime line = None"
      by (simp_all add: commit_of_record_def warning_of_record_def fewer_parts)
    then show ?thesis using True Cons by (simp add: List.map_filter_simps Let_def)
  next
    case False
    then have ne: "line \<noteq> []" using SplitN_empty by auto
    note parts = five_parts[OF False]
    show ?thesis
    proof (cases "parseTime (SplitN line (CHR ''|'') 5 ! 3)")
      case (Inl err)
      have "commit_of_record parseTime repoPath repoName line = None"
        "warning_of_record parseTime line =
           Some (''Warning: failed to parse timestamp '' @ SplitN line (CHR ''|'') 5 ! 3 @ '': '' @ Error err)"
        unfolding commit_of_record_def warning_of_record_def
        by (subst parts, simp add: Inl)+
      then show ?thesis using False ne Inl Cons by (simp add: List.map_filter_simps Let_def)
    next
      case (Inr timestamp)
      have "commit_of_record parseTime repoPath repoName line =
          Some \<lparr>Hash = SplitN line (CHR ''|'') 5 ! 0, Author = SplitN line (CHR ''|'') 5 ! 1,
                Email = SplitN line (CHR ''|'') 5 ! 2, Timestamp = timestamp,
                Message = SplitN line (CHR ''|'') 5 ! 4,
                Commit_RepoPath = repoPath, Commit_RepoName = repoName\<rparr>"
        "warning_of_record parseTime line = None"
        unfolding commit_of_record_def warning_of_record_def
        by (subst parts, simp add: Inr)+
      then show ?thesis using False ne Inr Cons by (simp add: List.map_filter_simps Let_def)
    qed
  qed
qed

lemma Scan_tokens_short:
  "\<forall>l\<in>set ls. length l < MaxScanTokenSize \<Longrightarrow> Scan_tokens ls = (map dropCR ls, None)"
  by (induction ls) auto

lemma Scan_tokens_stop:
  "\<forall>x\<in>set before. length x < MaxScanTokenSize \<Longrightarrow> MaxScanTokenSize \<le> length l \<Longrightarrow>
   Scan_tokens (before @ l # after) = (map dropCR before, Some ErrTooLong)"
  by (induction before) auto

lemma raw_lines_first:
  assumes "newline \<notin> set l"
  shows "raw_lines (l @ newline # rest) = l # raw_lines rest"
proof -
  have ne: "Split rest newline \<noteq> []" by (rule Split_nonempty)
  have "Split (l @ newline # rest) newline = l # Split rest newline"
    using assms by (rule Split_line_then_sep)
  then show ?thesis using ne by (simp add: raw_lines_def Let_def)
qed

lemma SplitN_no_sep: "sep \<notin> set s \<Longrightarrow> SplitN s sep 5 = [s]"
  by (simp add: eval_nat_numeral)

lemma ex_raw_lines: "raw_lines ex_log_output =
  [''0123456789abcdef|Dev|dev@example.com|2024-05-01T10:00:00Z|Add parser'',
   ''not a record'',
   ''89abcdef01234567|Dev|dev@example.com|yesterday|Fix scanner'',
   ''fedcba9876543210|Dev|dev@example.com|2024-05-01T11:30:00Z|Split a|b'']"
proof -
  have nl: "\<And>l rest. newline \<notin> set l \<Longrightarrow> Split (l @ [newline] @ rest) newline = l # Split rest newline"
    using Split_line_then_sep[of newline] by simp
  have "Split ex_log_output newline =
    [''0123456789abcdef|Dev|dev@example.com|2024-05-01T10:00:00Z|Add parser'',
     ''not a record'',
     ''89abcdef01234567|Dev|dev@example.com|yesterday|Fix scanner'',
     ''fedcba9876543210|Dev|dev@example.com|2024-05-01T11:30:00Z|Split a|b'', []]"
    unfolding ex_log_output_def
    apply (subst nl, simp add: newline_def)
    apply (subst nl, simp add: newline_def)
    apply (subst nl, simp add: newline_def)
    apply (subst nl[where rest="[]", simplified], simp add: newline_def)
    apply simp
    done
  then show ?thesis by (simp add: raw_lines_def)
qed

lemma ex_tokens: "Scanner ex_log_output =
  ([''0123456789abcdef|Dev|dev@example.com|2024-05-01T10:00:00Z|Add parser'',
    ''not a record'',
    ''89abcdef01234567|Dev|dev@example.com|yesterday|Fix scanner'',
    ''fedcba9876543210|Dev|dev@example.com|2024-05-01T11:30:00Z|Split a|b''], None)"
  unfolding Scanner_def ex_raw_lines
  by (subst Scan_tokens_short) (simp_all add: MaxScanTokenSize_def dropCR_def)

lemma ex_records:
  "List.map_filter (commit_of_record ex_parseTime ''/home/dev/projects/api'' ''api'')
     [''0123456789abcdef|Dev|dev@example.com|2024-05-01T10:00:00Z|Add parser'',
      ''not a record'',
      ''89abcdef01234567|Dev|dev@example.com|yesterday|Fix scanner'',
      ''fedcba9876543210|Dev|dev@example.com|2024-05-01T11:30:00Z|Split a|b'']
   = [\<lparr>Hash = ''0123456789abcdef'', Author = ''Dev'', Email = ''dev@example.com'',
        Timestamp = Time 1714557600000000000 0, Message = ''Add parser'',
        Commit_RepoPath = ''/home/dev/projects/api'', Commit_RepoName = ''api''\<rparr>,
      \<lparr>Hash = ''fedcba9876543210'', Author = ''Dev'', Email = ''dev@example.com'',
        Timestamp = Time 1714563000000000000 0, Message = ''Split a|b'',
        Commit_RepoPath = ''/home/dev/projects/api'', Commit_RepoName = ''api''\<rparr>]"
  by code_simp

lemma ex_warnings:
  "List.map_filter (warning_of_record ex_parseTime)
     [''0123456789abcdef|Dev|dev@example.com|2024-05-01T10:00:00Z|Add parser'',
      ''not a record'',
      ''89abcdef01234567|Dev|dev@example.com|yesterday|Fix scanner'',
      ''fedcba9876543210|Dev|dev@example.com|2024-05-01T11:30:00Z|Split a|b'']
   = [''Warning: failed to parse timestamp yesterday: cannot parse'']"
  by code_simp

lemma ex_repo_name: "GetRepoName ''/home/dev/projects/api'' = ''api''"
  by code_simp

text \<open>
  Claim C8, amended. \<^verbatim>\<open>parseCommits\<close> returns, in order, the commit of every line the scanner
  delivers that has five fields and a timestamp that parses; a delivered line with fewer than
  five fields gives no commit and no warning, one whose timestamp does not parse gives no
  commit and one warning, and the lines after it are read all the same. The error returned
  is the scanner's own. When every line of the output is shorter than the scanner's buffer of
  65536 bytes, every line is delivered and there is no error; at the first line of 65536
  bytes or more the scanner stops with \<^verbatim>\<open>ErrTooLong\<close>, having delivered the lines before it.
\<close>

theorem C8_malformed_records_skipped:
  "parseCommits parseTime output repoPath =
     ((List.map_filter (commit_of_record parseTime repoPath (GetRepoName repoPath)) (fst (Scanner output)),
       snd (Scanner output)),
      List.map_filter (warning_of_record parseTime) (fst (Scanner output))) \<and>
   (length (SplitN line (CHR ''|'') 5) < 5 \<longrightarrow>
      commit_of_record parseTime repoPath repoName line = None \<and>
      warning_of_record parseTime line = None) \<and>
   (SplitN line (CHR ''|'') 5 = [hash, author, email, stamp, subject] \<and> parseTime stamp = Inl err \<longrightarrow>
      commit_of_record parseTime repoPath repoName line = None \<and>
      warning_of_record parseTime line =
        Some (''Warning: failed to parse timestamp '' @ stamp @ '': '' @ Error err)) \<and>
   ((\<forall>l\<in>set (raw_lines output). length l < MaxScanTokenSize) \<longrightarrow>
      Scanner output = (map dropCR (raw_lines output), None)) \<and>
   (raw_lines output = before @ long # after \<and>
    (\<forall>l\<in>set before. length l < MaxScanTokenSize) \<and> MaxScanTokenSize \<le> length long \<longrightarrow>
      Scanner output = (map dropCR before, Some ErrTooLong))"
proof -
  have a: "parseCommits parseTime output repoPath =
     ((List.map_filter (commit_of_record parseTime repoPath (GetRepoName repoPath)) (fst (Scanner output)),
       snd (Scanner output)),
      List.map_filter (warning_of_record parseTime) (fst (Scanner output)))"
    by (simp add: parseCommits_def parseCommits_loop_eq split: prod.splits)
  have b: "length (SplitN line (CHR ''|'') 5) < 5 \<longrightarrow>
      commit_of_record parseTime repoPath repoName line = None \<and>
      warning_of_record parseTime line = None"
    by (simp add: commit_of_record_def warning_of_record_def fewer_parts)
  have c: "SplitN line (CHR ''|'') 5 = [hash, author, email, stamp, subject] \<and> parseTime stamp = Inl err \<longrightarrow>
      commit_of_record parseTime repoPath repoName line = None \<and>
      warning_of_record parseTime line =
        Some (''Warning: failed to parse timestamp '' @ stamp @ '': '' @ Error err)"
    by (simp add: commit_of_record_def warning_of_record_def)
  have d: "(\<forall>l\<in>set (raw_lines output). length l < MaxScanTokenSize) \<longrightarrow>
      Scanner output = (map dropCR (raw_lines output), None)"
    by (simp add: Scanner_def Scan_tokens_short)
  have e: "raw_lines output = before @ long # after \<and>
    (\<forall>l\<in>set before. length l < MaxScanTokenSize) \<and> MaxScanTokenSize \<le> length long \<longrightarrow>
      Scanner output = (map dropCR before, Some ErrTooLong)"
    by (simp add: Scanner_def Scan_tokens_stop)
  from a b c d e show ?thesis by blast
qed

text \<open>
  Claim C8 as stated fails at a line of 65536 bytes: it has fewer than five fields, yet it
  is not skipped; the scanner stops there, the two well-formed records after it are never
  read, and \<^verbatim>\<open>parseCommits\<close> returns no commit and the error \<^verbatim>\<open>ErrTooLong\<close>.
\<close>

theorem C8_counterexample:
  "length (SplitN (replicate 65536 (CHR ''a'')) (CHR ''|'') 5) < 5 \<and>
   parseCommits ex_parseTime (replicate 65536 (CHR ''a'') @ newline # ex_log_output)
       ''/home/dev/projects/api''
     = (([], Some ErrTooLong), [])"
proof -
  have nl: "newline \<notin> set (replicate 65536 (CHR ''a''))" by (simp add: newline_def)
  have raw: "raw_lines (replicate 65536 (CHR ''a'') @ newline # ex_log_output)
      = replicate 65536 (CHR ''a'') # raw_lines ex_log_output"
    by (rule raw_lines_first[OF nl])
  have long: "MaxScanTokenSize \<le> length (replicate 65536 (CHR ''a''))"
    by (simp add: MaxScanTokenSize_def)
  have "Scanner (replicate 65536 (CHR ''a'') @ newline # ex_log_output) = ([], Some ErrTooLong)"
    unfolding Scanner_def raw using Scan_tokens_stop[of "[]", OF _ long] by simp
  then have p: "parseCommits ex_parseTime (replicate 65536 (CHR ''a'') @ newline # ex_log_output)
       ''/home/dev/projects/api'' = (([], Some ErrTooLong), [])"
    by (simp add: parseCommits_def)
  have "SplitN (replicate 65536 (CHR ''a'')) (CHR ''|'') 5 = [replicate 65536 (CHR ''a'')]"
    by (rule SplitN_no_sep) simp
  then show ?thesis using p by simp
qed

text \<open>
  Claim C8, amended, at the example log (two commits, one warning, no error) and at the same
  log behind a line of 65536 bytes (the scanner stops at once).
\<close>

theorem C8_witness:
  "parseCommits ex_parseTime ex_log_output ''/home/dev/projects/api'' =
     (([\<lparr>Hash = ''0123456789abcdef'', Author = ''Dev'', Email = ''dev@example.com'',
         Timestamp = Time 1714557600000000000 0, Message = ''Add parser'',
         Commit_RepoPath = ''/home/dev/projects/api'', Commit_RepoName = ''api''\<rparr>,
        \<lparr>Hash = ''fedcba9876543210'', Author = ''Dev'', Email = ''dev@example.com'',
         Timestamp = Time 1714563000000000000 0, Message = ''Split a|b'',
         Commit_RepoPath = ''/home/dev/projects/api'', Commit_RepoName = ''api''\<rparr>], None),
      [''Warning: failed to parse timestamp yesterday: cannot parse'']) \<and>
   Scanner ex_log_output = (map dropCR (raw_lines ex_log_output), None) \<and>
   Scanner (replicate 65536 (CHR ''a'') @ newline # ex_log_output) = ([], Some ErrTooLong)"
proof -
  have short: "\<forall>l\<in>set (raw_lines ex_log_output). length l < MaxScanTokenSize"
    by (simp add: ex_raw_lines MaxScanTokenSize_def)
  have nl: "newline \<notin> set (replicate 65536 (CHR ''a''))" by (simp add: newline_def)
  have raw: "raw_lines (replicate 65536 (CHR ''a'') @ newline # ex_log_output)
      = [] @ replicate 65536 (CHR ''a'') # raw_lines ex_log_output"
    using raw_lines_first[OF nl] by simp
  have long: "MaxScanTokenSize \<le> length (replicate 65536 (CHR ''a''))"
    by (simp add: MaxScanTokenSize_def)
  from C8_malformed_records_skipped[of ex_parseTime ex_log_output "''/home/dev/projects/api''"]
  have p: "parseCommits ex_parseTime ex_log_output ''/home/dev/projects/api'' =
     (([\<lparr>Hash = ''0123456789abcdef'', Author = ''Dev'', Email = ''dev@example.com'',
         Timestamp = Time 1714557600000000000 0, Message = ''Add parser'',
         Commit_RepoPath = ''/home/dev/projects/api'', Commit_RepoName = ''api''\<rparr>,
        \<lparr>Hash = ''fedcba9876543210'', Author = ''Dev'', Email = ''dev@example.com'',
         Timestamp = Time 1714563000000000000 0, Message = ''Split a|b'',
         Commit_RepoPath = ''/home/dev/projects/api'', Commit_RepoName = ''api''\<rparr>], None),
      [''Warning: failed to parse timestamp yesterday: cannot parse''])"
    by (simp only: ex_tokens ex_repo_name ex_records ex_warnings fst_conv snd_conv)
  from C8_malformed_records_skipped[of ex_parseTime ex_log_output "''/home/dev/projects/api''"] short
  have q: "Scanner ex_log_output = (map dropCR (raw_lines ex_log_output), None)"
    by blast
  from C8_malformed_records_skipped[of ex_parseTime
      "replicate 65536 (CHR ''a'') @ newline # ex_log_output" "''/home/dev/projects/api''"
      _ _ _ _ _ _ _ _ "[]" "replicate 65536 (CHR ''a'')" "raw_lines ex_log_output"] raw long
  have t: "Scanner (replicate 65536 (CHR ''a'') @ newline # ex_log_output) = ([], Some ErrTooLong)"
    by simp
  from p q t show ?thesis by blast
qed

section \<open>The review engine: empty input, code fences, severities\<close>

text \<open>
  Claim C6. For the empty collection of diff units \<^verbatim>\<open>Review\<close> returns no findings, the summary
  \<^verbatim>\<open>No changes to review.\<close> and no error, and calls no model, whatever the provider and the
  decoder are.
\<close>

theorem C6_empty_review:
  "Review generateText unmarshal r [] = (Inr ([], ''No changes to review.''), [])"
  by (simp add: Review_def)

lemma cut_at_closing_fence:
  "(let text = body @ ''```''; idx = LastIndex text ''```''
    in if idx \<noteq> - 1 then take (nat idx) text else text) = body"
  by (simp add: LastIndex_suffix Let_def)

lemma strip_code_fence_object:
  assumes "HasPrefix (TrimSpace J) ''{''"
  shows "strip_code_fence J = TrimSpace J"
proof -
  from assms obtain rest where t: "TrimSpace J = CHR ''{'' # rest"
    by (cases "TrimSpace J") (auto simp: HasPrefix_def)
  have "\<not> HasPrefix (TrimSpace J) ''```json''" "\<not> HasPrefix (TrimSpace J) ''```''"
    by (simp_all add: t HasPrefix_def)
  then show ?thesis using TrimSpace_idem[OF assms] by (simp add: strip_code_fence_def)
qed

lemma strip_code_fence_wrapped:
  assumes tag: "tag = [] \<or> tag = ''json''"
    and s0: "\<forall>c\<in>set s0. asciiSpace c" and s1: "\<forall>c\<in>set s1. asciiSpace c"
    and s2: "\<forall>c\<in>set s2. asciiSpace c" and s3: "\<forall>c\<in>set s3. asciiSpace c"
    and obj: "HasPrefix (TrimSpace J) ''{''"
  shows "strip_code_fence (s0 @ ''```'' @ tag @ s1 @ J @ s2 @ ''```'' @ s3) = TrimSpace J"
proof -
  let ?body = "s1 @ J @ s2"
  have ne: "TrimSpace J \<noteq> []" using obj by (auto simp: HasPrefix_def)
  have trimmed: "TrimSpace (s0 @ ''```'' @ tag @ s1 @ J @ s2 @ ''```'' @ s3) = ''```'' @ tag @ ?body @ ''```''"
    using TrimSpace_fence[OF s0 s3, of "tag @ s1 @ J @ s2"] by simp
  have pad: "TrimSpace ?body = TrimSpace J" by (rule TrimSpace_pad[OF s1 s2 ne])
  from tag show ?thesis
  proof
    assume "tag = ''json''"
    then have t: "TrimSpace (s0 @ ''```'' @ tag @ s1 @ J @ s2 @ ''```'' @ s3) = ''```json'' @ (?body @ ''```'')"
      using trimmed by simp
    show ?thesis
      unfolding strip_code_fence_def t
      using HasPrefix_append[of "''```json''" "?body @ ''```''"]
        TrimPrefix_append[of "''```json''" "?body @ ''```''"]
        cut_at_closing_fence[of ?body] pad
      by (simp only: Let_def if_True)
  next
    assume "tag = []"
    then have t: "TrimSpace (s0 @ ''```'' @ tag @ s1 @ J @ s2 @ ''```'' @ s3) = ''```'' @ (?body @ ''```'')"
      using trimmed by simp
    have first: "?body \<noteq> [] \<and> hd ?body \<noteq> CHR ''j''"
    proof (cases s1)
      case Nil
      then show ?thesis using object_first_byte[OF obj] by simp
    next
      case (Cons c s1')
      then have "asciiSpace c" using s1 by simp
      then have "c \<noteq> CHR ''j''" by (auto simp: asciiSpace_def)
      then show ?thesis using Cons by simp
    qed
    have "\<not> HasPrefix (?body @ ''```'') ''json''"
      using first by (cases ?body) (auto simp: HasPrefix_Cons)
    then have nojson: "\<not> HasPrefix (''```'' @ (?body @ ''```'')) ''```json''"
      using HasPrefix_append_same[of "''```''" "?body @ ''```''" "''json''"] by simp
    show ?thesis
      unfolding strip_code_fence_def t
      using nojson HasPrefix_append[of "''```''" "?body @ ''```''"]
        TrimPrefix_append[of "''```''" "?body @ ''```''"]
        cut_at_closing_fence[of ?body] pad
      by (simp only: Let_def if_True if_False)
  qed
qed

lemma ex_strip_javascript: "strip_code_fence (''```javascript'' @ [newline] @ ''{}'' @ [newline] @ ''```'')
   = ''javascript'' @ [newline] @ ''{}''"
  by code_simp

lemma ex_strip_empty_object: "strip_code_fence ''{}'' = ''{}''"
  by code_simp

lemma ex_response_object: "HasPrefix (TrimSpace ex_response) ''{''"
  by code_simp

lemma ex_strip_response: "strip_code_fence ex_response = ex_response"
  by code_simp

lemma ex_parse: "parseResponse ex_Unmarshal ex_response = Inr ex_output"
  unfolding parseResponse_def ex_strip_response
  by (simp add: ex_Unmarshal_def ex_response_def quoted_def)

text \<open>
  Claim C4, amended. Let \<open>J\<close> be the text of a JSON object (white space aside it starts with
  an opening brace). Wrapped in a code fence whose language tag is absent or is \<^verbatim>\<open>json\<close>, with
  any ASCII white space before the fence, after the tag, before the closing fence and after
  it, the text parses exactly as \<open>J\<close> does, whatever the decoder is.
\<close>

theorem C4_fenced_json_parses_identically:
  assumes "tag = [] \<or> tag = ''json''"
    and "\<forall>c\<in>set s0. asciiSpace c" and "\<forall>c\<in>set s1. asciiSpace c"
    and "\<forall>c\<in>set s2. asciiSpace c" and "\<forall>c\<in>set s3. asciiSpace c"
    and "HasPrefix (TrimSpace J) ''{''"
  shows "parseResponse unmarshal (s0 @ ''```'' @ tag @ s1 @ J @ s2 @ ''```'' @ s3)
           = parseResponse unmarshal J"
  unfolding parseResponse_def
  using strip_code_fence_wrapped[OF assms] strip_code_fence_object[OF assms(6)] by simp

text \<open>
  Claim C4 as stated fails for another language tag: behind \<^verbatim>\<open>```javascript\<close> the tag stays in
  the text handed to the decoder, which rejects it, while the bare object decodes.
\<close>

theorem C4_counterexample:
  "parseResponse ex_Unmarshal ''{}'' = Inr \<lparr>Output_Summary = [], Output_Findings = []\<rparr> \<and>
   parseResponse ex_Unmarshal (''```javascript'' @ [newline] @ ''{}'' @ [newline] @ ''```'')
     = Inl (Wrap ''failed to parse JSON: ''
             (Err (''invalid character '' @ [CHR 0x27] @ ''j'' @ [CHR 0x27] @
                   '' looking for beginning of value''))
             (newline # ''Response was: javascript'' @ [newline] @ ''{}''))"
  unfolding parseResponse_def ex_strip_javascript ex_strip_empty_object
  by (simp add: ex_Unmarshal_def ex_response_def quoted_def newline_def)

text \<open>Claim C4, amended, at the example answer, with the tag \<^verbatim>\<open>json\<close> and with no tag.\<close>

theorem C4_witness:
  "parseResponse ex_Unmarshal (''```json'' @ [newline] @ ex_response @ [newline] @ ''```'') = Inr ex_output \<and>
   parseResponse ex_Unmarshal (''```'' @ [newline] @ ex_response @ [newline] @ ''```'') = Inr ex_output \<and>
   parseResponse ex_Unmarshal ex_response = Inr ex_output"
proof -
  have sp: "\<forall>c\<in>set [newline]. asciiSpace c" "\<forall>c\<in>set []. asciiSpace c"
    by (simp_all add: asciiSpace_def newline_def)
  have plain: "parseResponse ex_Unmarshal ex_response = Inr ex_output"
    unfolding parseResponse_def ex_strip_response
    by (simp add: ex_Unmarshal_def ex_response_def quoted_def)
  have "parseResponse ex_Unmarshal ([] @ ''```'' @ ''json'' @ [newline] @ ex_response @ [newline] @ ''```'' @ [])
          = parseResponse ex_Unmarshal ex_response"
    by (rule C4_fenced_json_parses_identically[OF _ sp(2) sp(1) sp(1) sp(2) ex_response_object]) simp
  moreover have "parseResponse ex_Unmarshal ([] @ ''```'' @ [] @ [newline] @ ex_response @ [newline] @ ''```'' @ [])
          = parseResponse ex_Unmarshal ex_response"
    by (rule C4_fenced_json_parses_identically[OF _ sp(2) sp(1) sp(1) sp(2) ex_response_object]) simp
  ultimately show ?thesis using plain by simp
qed

lemma count_severity_filter:
  "count_severity sev fs c = c + int (length (filter (\<lambda>f. Severity f = sev) fs))"
  by (induction fs arbitrary: c) auto

lemma severities_distinct:
  "SeverityHigh \<noteq> SeverityMedium" "SeverityHigh \<noteq> SeverityLow" "SeverityMedium \<noteq> SeverityLow"
  by (simp_all add: SeverityHigh_def SeverityMedium_def SeverityLow_def)

lemma three_counts:
  "length (filter (\<lambda>f. Severity f = SeverityHigh) fs) +
   length (filter (\<lambda>f. Severity f = SeverityMedium) fs) +
   length (filter (\<lambda>f. Severity f = SeverityLow) fs) =
   length (filter (\<lambda>f. Severity f \<in> {SeverityHigh, SeverityMedium, SeverityLow}) fs)"
  using severities_distinct by (induction fs) auto

lemma counts_sum:
  "HighCount r + MediumCount r + LowCount r =
   int (length (filter (\<lambda>f. Severity f \<in> {SeverityHigh, SeverityMedium, SeverityLow}) (Findings r)))"
  unfolding HighCount_def MediumCount_def LowCount_def count_severity_filter
  using three_counts[of "Findings r"] by simp

lemma filter_all_iff: "length (filter P xs) = length xs \<longleftrightarrow> (\<forall>x\<in>set xs. P x)"
  by (metis filter_id_conv length_filter_less less_irrefl_nat filter_True)

text \<open>
  Claim C10. The three severity counts add up to the number of findings exactly when every
  finding has one of the three severities; \<^verbatim>\<open>parseResponse\<close> returns what the decoder gives
  without looking at the severities; and a finding with another severity makes the sum
  smaller than the total.
\<close>

theorem C10_severity_not_validated:
  "(HighCount r + MediumCount r + LowCount r = TotalFindings r \<longleftrightarrow>
      (\<forall>f\<in>set (Findings r). Severity f \<in> {SeverityHigh, SeverityMedium, SeverityLow})) \<and>
   (unmarshal (strip_code_fence text) = Inr output \<longrightarrow> parseResponse unmarshal text = Inr output) \<and>
   ((\<exists>f\<in>set (Findings r). Severity f \<notin> {SeverityHigh, SeverityMedium, SeverityLow}) \<longrightarrow>
      HighCount r + MediumCount r + LowCount r < TotalFindings r)"
proof -
  let ?P = "\<lambda>f. Severity f \<in> {SeverityHigh, SeverityMedium, SeverityLow}"
  have a: "HighCount r + MediumCount r + LowCount r = TotalFindings r \<longleftrightarrow> (\<forall>f\<in>set (Findings r). ?P f)"
    unfolding counts_sum TotalFindings_def using filter_all_iff[of ?P "Findings r"] by simp
  have b: "unmarshal (strip_code_fence text) = Inr output \<longrightarrow> parseResponse unmarshal text = Inr output"
    by (simp add: parseResponse_def)
  have le: "HighCount r + MediumCount r + LowCount r \<le> TotalFindings r"
    unfolding counts_sum TotalFindings_def by simp
  have c: "(\<exists>f\<in>set (Findings r). \<not> ?P f) \<longrightarrow> HighCount r + MediumCount r + LowCount r < TotalFindings r"
    using a le by fastforce
  from a b c show ?thesis by blast
qed

text \<open>Claim C10 at the example answer, whose finding has the severity \<^verbatim>\<open>Critical\<close>.\<close>

theorem C10_witness:
  "parseResponse ex_Unmarshal ex_response = Inr ex_output \<and>
   Findings ex_run_report = Output_Findings ex_output \<and>
   HighCount ex_run_report + MediumCount ex_run_report + LowCount ex_run_report < TotalFindings ex_run_report"
proof -
  have dec: "ex_Unmarshal (strip_code_fence ex_response) = Inr ex_output"
    unfolding ex_strip_response by (simp add: ex_Unmarshal_def ex_response_def quoted_def)
  have other: "\<exists>f\<in>set (Findings ex_run_report). Severity f \<notin> {SeverityHigh, SeverityMedium, SeverityLow}"
    by (simp add: ex_run_report_def ex_output_def SeverityHigh_def SeverityMedium_def SeverityLow_def)
  from C10_severity_not_validated[of ex_run_report ex_Unmarshal ex_response ex_output] dec other
  show ?thesis by (simp add: ex_run_report_def)
qed

section \<open>Delivery: the retry loop\<close>

lemma send_loop_4: "send_loop net 4 (Some e) evs = (Some (Wrap ''failed after 3 attempts: '' e []), evs)"
  by (subst send_loop.simps) simp

lemma send_loop_3:
  "send_loop net 3 l evs =
     (case net 3 of None \<Rightarrow> (None, evs @ [Attempted 3])
      | Some e \<Rightarrow> (Some (Wrap ''failed after 3 attempts: '' e []),
           evs @ [Attempted 3, Logged (''Email attempt 3 failed: '' @ Error e)]))"
  by (subst send_loop.simps) (simp add: send_loop_4 decimal_digit digit_def split: option.splits)

lemma send_loop_2:
  "send_loop net 2 l evs =
     (case net 2 of None \<Rightarrow> (None, evs @ [Attempted 2])
      | Some e \<Rightarrow> send_loop net 3 (Some e)
           (evs @ [Attempted 2, Logged (''Email attempt 2 failed: '' @ Error e), Slept 4]))"
  by (subst send_loop.simps) (simp del: One_nat_def add: decimal_digit digit_def split: option.splits)

lemma send_loop_1:
  "send_loop net 1 l evs =
     (case net 1 of None \<Rightarrow> (None, evs @ [Attempted 1])
      | Some e \<Rightarrow> send_loop net 2 (Some e)
           (evs @ [Attempted 1, Logged (''Email attempt 1 failed: '' @ Error e), Slept 1]))"
  by (subst send_loop.simps) (simp del: One_nat_def add: decimal_digit digit_def split: option.splits)

lemma ex_send_flaky:
  "send flaky_smtp =
     (None, [Attempted 1, Logged ''Email attempt 1 failed: connecting to SMTP server: connection refused'',
             Slept 1,
             Attempted 2, Logged ''Email attempt 2 failed: connecting to SMTP server: connection refused'',
             Slept 4,
             Attempted 3])"
  unfolding send_def send_loop_1 send_loop_2 send_loop_3
  by (simp add: flaky_smtp_def)

text \<open>
  Claim C5. \<^verbatim>\<open>send\<close> makes at most three attempts. It returns no error as soon as one
  succeeds; it sleeps 1 second after the first failure and 4 seconds after the second; when
  all three fail it returns \<^verbatim>\<open>failed after 3 attempts:\<close> wrapped around the last failure, with no
  sleep after the third.
\<close>

theorem C5_send_retries:
  "(net 1 = None \<longrightarrow> send net = (None, [Attempted 1])) \<and>
   (net 1 = Some e1 \<and> net 2 = None \<longrightarrow>
      send net = (None, [Attempted 1, Logged (''Email attempt 1 failed: '' @ Error e1), Slept 1,
                         Attempted 2])) \<and>
   (net 1 = Some e1 \<and> net 2 = Some e2 \<and> net 3 = None \<longrightarrow>
      send net = (None, [Attempted 1, Logged (''Email attempt 1 failed: '' @ Error e1), Slept 1,
                         Attempted 2, Logged (''Email attempt 2 failed: '' @ Error e2), Slept 4,
                         Attempted 3])) \<and>
   (net 1 = Some e1 \<and> net 2 = Some e2 \<and> net 3 = Some e3 \<longrightarrow>
      send net = (Some (Wrap ''failed after 3 attempts: '' e3 []),
                  [Attempted 1, Logged (''Email attempt 1 failed: '' @ Error e1), Slept 1,
                   Attempted 2, Logged (''Email attempt 2 failed: '' @ Error e2), Slept 4,
                   Attempted 3, Logged (''Email attempt 3 failed: '' @ Error e3)]))"
  unfolding send_def send_loop_1 send_loop_2 send_loop_3
  by (simp split: option.splits)

text \<open>Claim C5 at a server that refuses twice and at one that always refuses.\<close>

theorem C5_witness:
  "send flaky_smtp =
     (None, [Attempted 1, Logged ''Email attempt 1 failed: connecting to SMTP server: connection refused'',
             Slept 1,
             Attempted 2, Logged ''Email attempt 2 failed: connecting to SMTP server: connection refused'',
             Slept 4,
             Attempted 3]) \<and>
   fst (send dead_smtp) =
     Some (Wrap ''failed after 3 attempts: '' (Err ''connecting to SMTP server: connection refused'') []) \<and>
   map_option Error (fst (send dead_smtp)) =
     Some ''failed after 3 attempts: connecting to SMTP server: connection refused''"
  using C5_send_retries[of flaky_smtp "Err ''connecting to SMTP server: connection refused''"
      "Err ''connecting to SMTP server: connection refused''" undefined]
    C5_send_retries[of dead_smtp "Err ''connecting to SMTP server: connection refused''"
      "Err ''connecting to SMTP server: connection refused''"
      "Err ''connecting to SMTP server: connection refused''"]
  by (simp add: flaky_smtp_def dead_smtp_def)

section \<open>The orchestrator: early exits and the delivery gate\<close>

lemma locate_commits_events:
  "\<exists>lines. snd (locate_commits w repos (cs, evs)) = evs @ map Logged lines"
proof (induction repos arbitrary: cs evs)
  case Nil
  have "snd (locate_commits w [] (cs, evs)) = evs @ map Logged []" by simp
  then show ?case by blast
next
  case (Cons repoPath repos)
  obtain commits err logged where
    g: "GetTodaysCommits (git_log w) (time_Parse w) repoPath = ((commits, err), logged)"
    by (metis prod.exhaust)
  obtain cs' where step: "locate_commits w (repoPath # repos) (cs, evs)
      = locate_commits w repos (cs', evs @ map Logged logged)"
    using g by (cases err) auto
  from Cons.IH[of cs' "evs @ map Logged logged"] obtain lines where
    "snd (locate_commits w repos (cs', evs @ map Logged logged)) = (evs @ map Logged logged) @ map Logged lines"
    by blast
  then have "snd (locate_commits w (repoPath # repos) (cs, evs)) = evs @ map Logged (logged @ lines)"
    using step by simp
  then show ?case by blast
qed

lemma extract_diffs_events:
  "\<exists>lines. snd (extract_diffs w commits (ds, evs)) = evs @ map Logged lines"
proof (induction commits arbitrary: ds evs)
  case Nil
  have "snd (extract_diffs w [] (ds, evs)) = evs @ map Logged []" by simp
  then show ?case by blast
next
  case (Cons commit commits)
  obtain res logged where e: "Extract (git_show_env w) commit = (res, logged)"
    by (metis prod.exhaust)
  show ?case
  proof (cases "\<exists>err. res = Inl err \<and> length (Hash commit) < 8")
    case True
    then have "snd (extract_diffs w (commit # commits) (ds, evs)) = evs @ map Logged logged"
      using e by auto
    then show ?thesis by blast
  next
    case False
    then obtain ds' where step: "extract_diffs w (commit # commits) (ds, evs)
        = extract_diffs w commits (ds', evs @ map Logged logged)"
      using e by (cases res) auto
    from Cons.IH[of ds' "evs @ map Logged logged"] obtain lines where
      "snd (extract_diffs w commits (ds', evs @ map Logged logged)) = (evs @ map Logged logged) @ map Logged lines"
      by blast
    then have "snd (extract_diffs w (commit # commits) (ds, evs)) = evs @ map Logged (logged @ lines)"
      using step by simp
    then show ?thesis by blast
  qed
qed

lemma handleNoFindings_events: "snd (handleNoFindings w) = [Written (nothing_report w)]"
  by (simp add: handleNoFindings_def nothing_report_def Let_def split: sum.splits)

lemma send_events:
  "e \<in> set (snd (send net)) \<Longrightarrow> (\<exists>n. e = Attempted n) \<or> (\<exists>s. e = Logged s) \<or> (\<exists>n. e = Slept n)"
  unfolding send_def send_loop_1 send_loop_2 send_loop_3
  by (auto split: option.splits)

lemma notify_step_events:
  "snd (notify_step w cfg rpt) =
     (if Enabled (Config_Email cfg) \<and> HasFindings rpt
      then SendReportCalled rpt # snd (send (smtp_sendWithTimeout w)) else [])"
  by (auto simp: notify_step_def SendReport_def split: prod.splits option.splits)

lemma Review_events:
  "e \<in> set (snd (Review g u r ds)) \<Longrightarrow> \<exists>m p. e = Generated m p"
  by (auto simp: Review_def Let_def split: if_splits sum.splits)

lemma review_steps_events:
  "\<exists>gen rest. snd (review_steps w cfg repos cs ds) = gen @ rest \<and>
     (\<forall>e\<in>set gen. \<exists>m p. e = Generated m p) \<and>
     (rest = [] \<or>
      (\<exists>rpt. \<not> NothingToNote rpt \<and>
         (rest = [Written rpt] \<or> rest = Written rpt # snd (notify_step w cfg rpt))))"
proof -
  obtain res gen where r: "Review (genkit_GenerateText w) (json_Unmarshal w)
      (NewReviewer (Config_Review cfg)) ds = (res, gen)"
    by (metis prod.exhaust)
  have gen: "\<forall>e\<in>set gen. \<exists>m p. e = Generated m p"
    using Review_events[of _ "genkit_GenerateText w" "json_Unmarshal w" "NewReviewer (Config_Review cfg)" ds] r
    by simp
  show ?thesis
  proof (cases res)
    case (Inl err)
    then have "snd (review_steps w cfg repos cs ds) = gen @ []" using r by (simp add: review_steps_def)
    with gen show ?thesis by blast
  next
    case (Inr fs)
    obtain findings summary where fs: "fs = (findings, summary)" by (metis prod.exhaust)
    let ?rpt = "\<lparr>Date = time_Now w, Summary = summary, Findings = findings,
                      Repositories = repos, CommitCount = int (length cs),
                      FileCount = int (length ds), NothingToNote = False, Model = []\<rparr>"
    have n: "\<not> NothingToNote ?rpt" by simp
    have "snd (review_steps w cfg repos cs ds) = gen @ Written ?rpt # snd (notify_step w cfg ?rpt)
        \<or> snd (review_steps w cfg repos cs ds) = gen @ [Written ?rpt]"
      using r Inr fs by (auto simp: review_steps_def Let_def split: sum.splits prod.splits)
    then show ?thesis using gen n by blast
  qed
qed

lemma review_steps_send:
  assumes "SendReportCalled rpt \<in> set (snd (review_steps w cfg repos cs ds))"
  shows "Enabled (Config_Email cfg) \<and> HasFindings rpt \<and> \<not> NothingToNote rpt \<and>
         Written rpt \<in> set (snd (review_steps w cfg repos cs ds))"
proof -
  from review_steps_events[of w cfg repos cs ds] obtain gen rest where
    ev: "snd (review_steps w cfg repos cs ds) = gen @ rest"
    and gen: "\<forall>e\<in>set gen. \<exists>m p. e = Generated m p"
    and rest: "rest = [] \<or>
      (\<exists>r. \<not> NothingToNote r \<and> (rest = [Written r] \<or> rest = Written r # snd (notify_step w cfg r)))"
    by blast
  from assms ev gen have in_rest: "SendReportCalled rpt \<in> set rest" by auto
  with rest obtain r where r: "\<not> NothingToNote r" "rest = Written r # snd (notify_step w cfg r)"
    by auto
  with in_rest have mem: "SendReportCalled rpt \<in> set (snd (notify_step w cfg r))" by simp
  then have en: "Enabled (Config_Email cfg) \<and> HasFindings r"
    by (auto simp: notify_step_events split: if_splits)
  with mem have "SendReportCalled rpt = SendReportCalled r \<or> SendReportCalled rpt \<in> set (snd (send (smtp_sendWithTimeout w)))"
    by (simp add: notify_step_events)
  then have "rpt = r" using send_events[of "SendReportCalled rpt" "smtp_sendWithTimeout w"] by auto
  then show ?thesis using en r ev by simp
qed

lemma review_steps_attempt:
  assumes "Attempted n \<in> set (snd (review_steps w cfg repos cs ds))"
  shows "\<exists>rpt. SendReportCalled rpt \<in> set (snd (review_steps w cfg repos cs ds))"
proof -
  from review_steps_events[of w cfg repos cs ds] obtain gen rest where
    ev: "snd (review_steps w cfg repos cs ds) = gen @ rest"
    and gen: "\<forall>e\<in>set gen. \<exists>m p. e = Generated m p"
    and rest: "rest = [] \<or>
      (\<exists>r. \<not> NothingToNote r \<and> (rest = [Written r] \<or> rest = Written r # snd (notify_step w cfg r)))"
    by blast
  from assms ev gen have in_rest: "Attempted n \<in> set rest" by auto
  with rest obtain r where r: "rest = Written r # snd (notify_step w cfg r)"
    by auto
  with in_rest have "Attempted n \<in> set (snd (notify_step w cfg r))" by simp
  then have "SendReportCalled r \<in> set (snd (notify_step w cfg r))"
    by (auto simp: notify_step_events split: if_splits)
  then show ?thesis using ev r by auto
qed

text \<open>The shapes of a run's events.\<close>

lemma Run_events:
  "(\<exists>lines. snd (Run w cfg) = map Logged lines) \<or>
   (\<exists>lines. snd (Run w cfg) = map Logged lines @ [Written (nothing_report w)]) \<or>
   (\<exists>lines repos cs ds. snd (Run w cfg) = map Logged lines @ snd (review_steps w cfg repos cs ds))"
proof (cases "Validate (os_Stat_missing w) cfg")
  case (Some err)
  then have "snd (Run w cfg) = map Logged []" by (simp add: Run_def)
  then show ?thesis by blast
next
  case None
  show ?thesis
  proof (cases "scanner_FindRepositories w (RootPath cfg)")
    case (Inl err)
    then have "snd (Run w cfg) = map Logged []" using None by (simp add: Run_def)
    then show ?thesis by blast
  next
    case (Inr repos)
    show ?thesis
    proof (cases "repos = []")
      case True
      then have "snd (Run w cfg) = map Logged []" using None Inr by (simp add: Run_def)
      then show ?thesis by blast
    next
      case False
      obtain cs located where loc: "locate_commits w repos ([], []) = (cs, located)"
        by (metis prod.exhaust)
      from locate_commits_events[of w repos "[]" "[]"] loc obtain l1 where
        l1: "located = map Logged l1" by auto
      show ?thesis
      proof (cases "cs = []")
        case True
        then have "snd (Run w cfg) = located @ snd (handleNoFindings w)"
          using None Inr False loc by (simp add: Run_def split: prod.splits)
        then have "snd (Run w cfg) = map Logged l1 @ [Written (nothing_report w)]"
          using l1 handleNoFindings_events by simp
        then show ?thesis by blast
      next
        case cs: False
        obtain dso extracted where ex: "extract_diffs w cs ([], located) = (dso, extracted)"
          by (metis prod.exhaust)
        from extract_diffs_events[of w cs "[]" located] ex obtain l2' where
          "extracted = located @ map Logged l2'" by auto
        then have "extracted = map Logged (l1 @ l2')" using l1 by simp
        then obtain l2 where l2: "extracted = map Logged l2" by blast
        show ?thesis
        proof (cases dso)
          case None': None
          then have "snd (Run w cfg) = extracted"
            using None Inr False loc cs ex by (simp add: Run_def split: prod.splits)
          then show ?thesis using l2 by blast
        next
          case (Some ds)
          show ?thesis
          proof (cases "ds = []")
            case True
            then have "snd (Run w cfg) = extracted @ snd (handleNoFindings w)"
              using None Inr False loc cs ex Some by (simp add: Run_def split: prod.splits)
            then have "snd (Run w cfg) = map Logged l2 @ [Written (nothing_report w)]"
              using l2 handleNoFindings_events by simp
            then show ?thesis by blast
          next
            case ds: False
            then have "snd (Run w cfg) = extracted @ snd (review_steps w cfg repos cs ds)"
              using None Inr False loc cs ex Some by (simp add: Run_def split: prod.splits)
            then show ?thesis using l2 by blast
          qed
        qed
      qed
    qed
  qed
qed

lemma Run_no_commits:
  assumes "Validate (os_Stat_missing w) cfg = None"
    and "scanner_FindRepositories w (RootPath cfg) = Inr repos" and "repos \<noteq> []"
    and "locate_commits w repos ([], []) = ([], located)"
  shows "Run w cfg = (Returned (fst (handleNoFindings w)), located @ [Written (nothing_report w)])"
  using assms handleNoFindings_events[of w]
  by (auto simp: Run_def split: prod.splits)

lemma Run_no_diffs:
  assumes "Validate (os_Stat_missing w) cfg = None"
    and "scanner_FindRepositories w (RootPath cfg) = Inr repos" and "repos \<noteq> []"
    and "locate_commits w repos ([], []) = (allCommits, located)"
    and "extract_diffs w allCommits ([], located) = (Some [], extracted)"
  shows "Run w cfg = (Returned (fst (handleNoFindings w)), extracted @ [Written (nothing_report w)])"
  using assms handleNoFindings_events[of w]
  by (cases "allCommits = []") (auto simp: Run_def split: prod.splits)

lemma ex_parseCommits:
  "parseCommits ex_parseTime ex_log_output ''/home/dev/projects/api'' =
     ((ex_commits, None), [''Warning: failed to parse timestamp yesterday: cannot parse''])"
  by (simp only: parseCommits_def Let_def ex_tokens ex_repo_name parseCommits_loop_eq ex_records
      ex_warnings ex_commits_def prod.case append_Nil)

lemma ex_locate:
  "locate_commits ex_world [''/home/dev/projects/api''] ([], []) =
     (ex_commits, [Logged ''Warning: failed to parse timestamp yesterday: cannot parse''])"
  by (simp add: GetTodaysCommits_def ex_world_def ex_parseCommits)

lemma ex_empty_log: "parseCommits pt [] repoPath = (([], None), [])"
  by (simp add: parseCommits_def Scanner_def raw_lines_def)

lemma ex_locate_no_commits:
  "locate_commits ex_world_no_commits [''/home/dev/projects/api''] ([], []) = ([], [])"
  by (simp add: GetTodaysCommits_def ex_world_no_commits_def ex_world_def ex_empty_log)

lemma ex_locate_no_diffs:
  "locate_commits ex_world_no_diffs [''/home/dev/projects/api''] ([], []) =
     (ex_commits, [Logged ''Warning: failed to parse timestamp yesterday: cannot parse''])"
  by (simp add: GetTodaysCommits_def ex_world_no_diffs_def ex_world_def ex_parseCommits)

lemma ex_Extract_none:
  "Extract \<lparr>getChangedFiles = (\<lambda>repo hash. Inr [''vendor/lib.go'', ''README.md'']),
            getFileDiff = (\<lambda>repo hash file. Inr ex_short_diff)\<rparr> c = (Inr [], [])"
  by (simp add: Extract_def SupportedExtensions_def Ext_def IsPathSeparator_def
      shouldExclude_def excludePaths_def HasPrefix_def)

lemma ex_extract_no_diffs:
  "extract_diffs ex_world_no_diffs ex_commits ([], evs) = (Some [], evs)"
  by (simp add: ex_commits_def ex_world_no_diffs_def ex_world_def ex_Extract_none)

lemma ex_Validate: "Validate False ex_config = None"
  by (simp add: Validate_def ex_config_def)

lemma ex_extract:
  "extract_diffs ex_world ex_commits ([], evs) = (Some ex_diffs, evs)"
  by (simp add: ex_commits_def ex_diffs_def ex_world_def ex_Extract_any)

lemma ex_modelID: "modelID (NewReviewer (Config_Review ex_config)) = ''openai/glm-4.7''"
  by (simp add: NewReviewer_def ex_config_def HasPrefix_def Let_def)

lemma ex_Review:
  "Review (\<lambda>model prompt. Inr ex_response) ex_Unmarshal (NewReviewer (Config_Review ex_config)) ex_diffs =
     (Inr (Output_Findings ex_output, Output_Summary ex_output),
      [Generated ''openai/glm-4.7'' (buildPrompt ex_diffs)])"
proof -
  have "length ex_diffs \<noteq> 0" by (simp add: ex_diffs_def)
  then show ?thesis by (simp add: Review_def ex_parse ex_modelID Let_def)
qed

lemma ex_review_steps:
  "review_steps ex_world ex_config [''/home/dev/projects/api''] ex_commits ex_diffs =
     (None, [Generated ''openai/glm-4.7'' (buildPrompt ex_diffs), Written ex_run_report,
             SendReportCalled ex_run_report] @ snd (send flaky_smtp))"
proof -
  have r: "\<lparr>Date = time_Now ex_world, Summary = Output_Summary ex_output,
            Findings = Output_Findings ex_output, Repositories = [''/home/dev/projects/api''],
            CommitCount = int (length ex_commits), FileCount = int (length ex_diffs),
            NothingToNote = False, Model = []\<rparr> = ex_run_report"
    by (simp add: ex_run_report_def ex_world_def ex_output_def ex_commits_def ex_diffs_def)
  have n: "notify_step ex_world ex_config ex_run_report =
      (None, SendReportCalled ex_run_report # snd (send flaky_smtp))"
    by (simp add: notify_step_def SendReport_def ex_send_flaky ex_config_def HasFindings_def
        ex_run_report_def ex_output_def ex_world_def)
  have rv: "Review (genkit_GenerateText ex_world) (json_Unmarshal ex_world)
      (NewReviewer (Config_Review ex_config)) ex_diffs =
     (Inr (Output_Findings ex_output, Output_Summary ex_output),
      [Generated ''openai/glm-4.7'' (buildPrompt ex_diffs)])"
    using ex_Review by (simp add: ex_world_def)
  have wr: "report_Write ex_world ex_run_report = Inr ''reports/2024-05-01.md''"
    by (simp add: ex_world_def)
  show ?thesis
    unfolding review_steps_def rv
    by (simp only: prod.case sum.case Let_def r wr n append_Cons append_Nil)
qed

lemma ex_Run:
  "Run ex_world ex_config =
     (Returned None,
      [Logged ''Warning: failed to parse timestamp yesterday: cannot parse'',
       Generated ''openai/glm-4.7'' (buildPrompt ex_diffs), Written ex_run_report,
       SendReportCalled ex_run_report] @ snd (send flaky_smtp))"
proof -
  have v: "Validate (os_Stat_missing ex_world) ex_config = None"
    using ex_Validate by (simp add: ex_world_def)
  have f: "scanner_FindRepositories ex_world (RootPath ex_config) = Inr [''/home/dev/projects/api'']"
    by (simp add: ex_world_def)
  have c: "length ex_commits \<noteq> 0" "length ex_diffs \<noteq> 0"
    by (simp_all add: ex_commits_def ex_diffs_def)
  show ?thesis
    unfolding Run_def v f option.case sum.case ex_locate
    using c by (simp add: ex_extract ex_review_steps)
qed

text \<open>
  Claim C7. In every run, a report is handed to \<^verbatim>\<open>SendReport\<close> only if email is enabled in the
  configuration and the report has at least one finding; it is then the report that was
  written, never the one of an early exit. An SMTP attempt is made only inside such a call.
\<close>

theorem C7_delivery_only_with_findings:
  "(SendReportCalled rpt \<in> set (snd (Run w cfg)) \<longrightarrow>
      Enabled (Config_Email cfg) \<and> HasFindings rpt \<and> \<not> NothingToNote rpt \<and>
      Written rpt \<in> set (snd (Run w cfg))) \<and>
   (Attempted n \<in> set (snd (Run w cfg)) \<longrightarrow> (\<exists>r. SendReportCalled r \<in> set (snd (Run w cfg))))"
proof -
  consider
    (logs) lines where "snd (Run w cfg) = map Logged lines"
  | (nothing) lines where "snd (Run w cfg) = map Logged lines @ [Written (nothing_report w)]"
  | (review) lines repos cs ds where
      "snd (Run w cfg) = map Logged lines @ snd (review_steps w cfg repos cs ds)"
    using Run_events[of w cfg] by blast
  then show ?thesis
  proof cases
    case logs
    then show ?thesis by auto
  next
    case nothing
    then show ?thesis by auto
  next
    case review
    have a: "SendReportCalled rpt \<in> set (snd (Run w cfg)) \<longrightarrow>
      Enabled (Config_Email cfg) \<and> HasFindings rpt \<and> \<not> NothingToNote rpt \<and>
      Written rpt \<in> set (snd (Run w cfg))"
    proof
      assume "SendReportCalled rpt \<in> set (snd (Run w cfg))"
      then have "SendReportCalled rpt \<in> set (snd (review_steps w cfg repos cs ds))"
        using review by auto
      from review_steps_send[OF this] show "Enabled (Config_Email cfg) \<and> HasFindings rpt \<and>
          \<not> NothingToNote rpt \<and> Written rpt \<in> set (snd (Run w cfg))"
        using review by simp
    qed
    have b: "Attempted n \<in> set (snd (Run w cfg)) \<longrightarrow> (\<exists>r. SendReportCalled r \<in> set (snd (Run w cfg)))"
    proof
      assume "Attempted n \<in> set (snd (Run w cfg))"
      then have "Attempted n \<in> set (snd (review_steps w cfg repos cs ds))"
        using review by auto
      from review_steps_attempt[OF this] show "\<exists>r. SendReportCalled r \<in> set (snd (Run w cfg))"
        using review by auto
    qed
    from a b show ?thesis by blast
  qed
qed

text \<open>Claim C7 at the example world: the report has a finding, email is enabled, it is sent.\<close>

theorem C7_witness:
  "SendReportCalled ex_run_report \<in> set (snd (Run ex_world ex_config)) \<and>
   Enabled (Config_Email ex_config) \<and> HasFindings ex_run_report \<and>
   Written ex_run_report \<in> set (snd (Run ex_world ex_config)) \<and>
   Attempted 3 \<in> set (snd (Run ex_world ex_config))"
proof -
  have called: "SendReportCalled ex_run_report \<in> set (snd (Run ex_world ex_config))"
    by (simp add: ex_Run)
  have att: "Attempted 3 \<in> set (snd (Run ex_world ex_config))"
    by (simp add: ex_Run ex_send_flaky)
  from C7_delivery_only_with_findings[of ex_run_report ex_world ex_config 3] called att
  show ?thesis by blast
qed

text \<open>
  Claim C3, amended. In a run that finds at least one repository and then no commit, or no
  diff unit, the only events besides logged lines are the report with \<^verbatim>\<open>NothingToNote = true\<close>
  handed to \<^verbatim>\<open>report.Write\<close>: no model is called and \<^verbatim>\<open>SendReport\<close> is not invoked; the run
  returns what \<^verbatim>\<open>handleNoFindings\<close> returns. In a run that finds no repository, too, no model
  is called and \<^verbatim>\<open>SendReport\<close> is not invoked.
\<close>

theorem C3_early_exit_report:
  assumes "Validate (os_Stat_missing w) cfg = None"
    and "scanner_FindRepositories w (RootPath cfg) = Inr repos"
    and "locate_commits w repos ([], []) = (allCommits, located)"
  shows
   "(repos = [] \<longrightarrow>
       (\<forall>e\<in>set (snd (Run w cfg)). (\<forall>m p. e \<noteq> Generated m p) \<and> (\<forall>r. e \<noteq> SendReportCalled r))) \<and>
    (repos \<noteq> [] \<and>
       (allCommits = [] \<or> (\<exists>extracted. extract_diffs w allCommits ([], located) = (Some [], extracted))) \<longrightarrow>
       (\<exists>lines. snd (Run w cfg) = map Logged lines @
           [Written \<lparr>Date = time_Now w, Summary = ''No code changes to review today.'',
                     Findings = [], Repositories = [], CommitCount = 0, FileCount = 0,
                     NothingToNote = True, Model = []\<rparr>]) \<and>
       fst (Run w cfg) = Returned (fst (handleNoFindings w)))"
proof -
  have a: "repos = [] \<longrightarrow>
       (\<forall>e\<in>set (snd (Run w cfg)). (\<forall>m p. e \<noteq> Generated m p) \<and> (\<forall>r. e \<noteq> SendReportCalled r))"
    using assms(1,2) by (simp add: Run_def)
  have b: "(\<exists>lines. snd (Run w cfg) = map Logged lines @ [Written (nothing_report w)]) \<and>
       fst (Run w cfg) = Returned (fst (handleNoFindings w))"
    if ne: "repos \<noteq> []"
      and z: "allCommits = [] \<or> (\<exists>extracted. extract_diffs w allCommits ([], located) = (Some [], extracted))"
  proof -
    from locate_commits_events[of w repos "[]" "[]"] assms(3) obtain l1 where
      l1: "located = map Logged l1" by auto
    show ?thesis
    proof (cases "allCommits = []")
      case True
      with Run_no_commits[OF assms(1,2) ne] assms(3) l1 show ?thesis by auto
    next
      case False
      with z obtain extracted where ex: "extract_diffs w allCommits ([], located) = (Some [], extracted)"
        by blast
      from extract_diffs_events[of w allCommits "[]" located] ex obtain l2 where
        "extracted = located @ map Logged l2" by auto
      then have "extracted = map Logged (l1 @ l2)" using l1 by simp
      with Run_no_diffs[OF assms(1,2) ne assms(3) ex] show ?thesis by (metis fst_conv snd_conv)
    qed
  qed
  from a b show ?thesis unfolding nothing_report_def by blast
qed

text \<open>
  Claim C3 as stated fails for zero repositories: the run returns at once and hands no
  report to \<^verbatim>\<open>report.Write\<close>.
\<close>

theorem C3_counterexample:
  "Run ex_world_no_repos ex_config = (Returned None, [])"
  by (simp add: Run_def ex_world_no_repos_def ex_world_def ex_Validate)

text \<open>Claim C3, amended, at the world with an empty log and at the one with no reviewable file.\<close>

theorem C3_witness:
  "snd (Run ex_world_no_commits ex_config) =
     [Written \<lparr>Date = Time 1714600800000000000 0, Summary = ''No code changes to review today.'',
               Findings = [], Repositories = [], CommitCount = 0, FileCount = 0,
               NothingToNote = True, Model = []\<rparr>] \<and>
   fst (Run ex_world_no_commits ex_config) = Returned None \<and>
   snd (Run ex_world_no_diffs ex_config) =
     [Logged ''Warning: failed to parse timestamp yesterday: cannot parse'',
      Written \<lparr>Date = Time 1714600800000000000 0, Summary = ''No code changes to review today.'',
               Findings = [], Repositories = [], CommitCount = 0, FileCount = 0,
               NothingToNote = True, Model = []\<rparr>] \<and>
   fst (Run ex_world_no_diffs ex_config) = Returned None"
proof -
  have v1: "Validate (os_Stat_missing ex_world_no_commits) ex_config = None"
    using ex_Validate by (simp add: ex_world_no_commits_def ex_world_def)
  have f1: "scanner_FindRepositories ex_world_no_commits (RootPath ex_config) = Inr [''/home/dev/projects/api'']"
    by (simp add: ex_world_no_commits_def ex_world_def)
  have h1: "fst (handleNoFindings ex_world_no_commits) = None" "time_Now ex_world_no_commits = Time 1714600800000000000 0"
    by (simp_all add: handleNoFindings_def ex_world_no_commits_def ex_world_def)
  have v2: "Validate (os_Stat_missing ex_world_no_diffs) ex_config = None"
    using ex_Validate by (simp add: ex_world_no_diffs_def ex_world_def)
  have f2: "scanner_FindRepositories ex_world_no_diffs (RootPath ex_config) = Inr [''/home/dev/projects/api'']"
    by (simp add: ex_world_no_diffs_def ex_world_def)
  have h2: "fst (handleNoFindings ex_world_no_diffs) = None" "time_Now ex_world_no_diffs = Time 1714600800000000000 0"
    by (simp_all add: handleNoFindings_def ex_world_no_diffs_def ex_world_def)
  have e1: "snd (Run ex_world_no_commits ex_config) = [] @ [Written (nothing_report ex_world_no_commits)]"
    using Run_no_commits[OF v1 f1 _ ex_locate_no_commits] by simp
  have e2: "snd (Run ex_world_no_diffs ex_config) =
      [Logged ''Warning: failed to parse timestamp yesterday: cannot parse''] @ [Written (nothing_report ex_world_no_diffs)]"
    using Run_no_diffs[OF v2 f2 _ ex_locate_no_diffs ex_extract_no_diffs] by simp
  from C3_early_exit_report[OF v1 f1 ex_locate_no_commits]
  have r1: "fst (Run ex_world_no_commits ex_config) = Returned None"
    using h1 by simp
  from C3_early_exit_report[OF v2 f2 ex_locate_no_diffs] ex_extract_no_diffs
  have r2: "fst (Run ex_world_no_diffs ex_config) = Returned None"
    using h2 by (simp add: ex_commits_def)
  show ?thesis using e1 e2 r1 r2 h1 h2 by (simp add: nothing_report_def)
qed

end
